theory Spec2Isabelle
  imports Complex_Main "HOL-Library.AList" "HOL-Library.Char_ord" "HOL-Library.List_Lexorder"
begin

section \<open>The GeoQuery engine of geoQuery.js\<close>

text \<open>
  The embedding follows \<^verbatim>\<open>src/geoQuery.js\<close> function by function. The closure variables of
  the constructor (\<^verbatim>\<open>_callbacks\<close>, \<^verbatim>\<open>_locations\<close>, \<^verbatim>\<open>_currentGeohashesQueried\<close>, ...)
  are the fields of one record, passed through every function and returned updated; the
  leading underscore of the JavaScript names is dropped, since an Isabelle name starts with
  a letter.

  \<^item> JavaScript numbers are \<open>real\<close>s (no NaN, no rounding).
  \<^item> A location \<^verbatim>\<open>[latitude, longitude]\<close> is a pair of numbers.
  \<^item> The objects \<^verbatim>\<open>_locations\<close> and \<^verbatim>\<open>_currentGeohashesQueried\<close> are association
    lists of their own properties in insertion order: an assignment to a present key keeps
    its place, to a new key appends, \<^verbatim>\<open>delete\<close> removes. The keys of a JavaScript object
    are distinct. Both are plain objects (\<^verbatim>\<open>{}\<close>) used as dictionaries, so what a plain
    object does with the keys that name an array index, with the key \<^verbatim>\<open>__proto__\<close> and with
    the key \<^verbatim>\<open>hasOwnProperty\<close> is part of the model (see the subsection on objects).
  \<^item> A \<^verbatim>\<open>throw\<close> is an \<open>error\<close> returned beside the state: an exception does not roll
    back what the function has already written, so the state reached is returned too.
  \<^item> Everything the engine does to the outside (a client callback called, a listener
    attached or detached at the store, a point read issued, a timer set or cleared) is
    appended to the field \<open>trace\<close>, in the order in which it happens. Client callbacks
    are identified by a number; they are taken to return normally and not to call back
    into the engine.
  \<^item> The functions of the repository that are not in this file (\<^verbatim>\<open>GeoFire.distance\<close>,
    \<^verbatim>\<open>encodeGeohash\<close>, \<^verbatim>\<open>geohashQueries\<close>, \<^verbatim>\<open>decodeGeofireObject\<close>,
    \<^verbatim>\<open>validateLocation\<close>, \<^verbatim>\<open>validateCriteria\<close>, the constant
    \<^verbatim>\<open>g_GEOHASH_PRECISION\<close>) are the fields of a record of parameters, as is
    JavaScript's conversion of a string to a number. They are total: apart from the two
    validators, a collaborator returns a value.
  \<^item> The store calls the engine back later, never from inside \<^verbatim>\<open>on\<close> or \<^verbatim>\<open>once\<close>: a
    notification of a range, the value event of a new range and the completion of a point
    read are inputs of their own (see \<open>step\<close>), and so are the two timers. Any input may
    arrive in any state, which is more than a store does.
  \<^item> Left out, since nothing here reads them: the getters \<^verbatim>\<open>center\<close> and \<^verbatim>\<open>radius\<close>, the
    registration object that \<^verbatim>\<open>on\<close> returns, and the constructor's check that its first
    argument is a Firebase reference.
\<close>

subsection \<open>Data\<close>

type_synonym latlon = "real \<times> real"

text \<open>An entry of \<^verbatim>\<open>_locations\<close>.\<close>

record locationDict =
  location :: latlon
  distanceFromCenter :: real
  isInQuery :: bool
  geohash :: string

text \<open>The argument of the constructor and of \<^verbatim>\<open>updateCriteria\<close>: both attributes optional.\<close>

record criteria =
  crit_center :: "latlon option"
  crit_radius :: "real option"

text \<open>The second argument of \<^verbatim>\<open>on\<close>: a function (identified by a number) or anything else.\<close>

datatype callback_arg = Fn nat | Not_a_function

text \<open>
  The exceptions: the four \<^verbatim>\<open>Error\<close>s that the source and its validators throw, and the
  \<^verbatim>\<open>TypeError\<close> of calling \<^verbatim>\<open>_locations.hasOwnProperty\<close> when that property is not a
  function.
\<close>

datatype error =
    Invalid_internal_state string
  | Invalid_location
  | Invalid_criteria
  | Invalid_event_type
  | Callback_not_a_function
  | HasOwnProperty_not_a_function

datatype effect =
    Fired string string "latlon option" "real option"
  | Invoked string nat string "latlon option" "real option"
  | Fired_ready
  | Invoked_ready nat
  | Store_on string string
  | Store_once_value string string
  | Store_off string string
  | Store_read string
  | Set_timeout nat
  | Clear_timeout
  | Set_interval nat
  | Clear_interval

text \<open>
  \<open>Fired et key location distance\<close>: \<^verbatim>\<open>_fireCallbacksForKey(et, key, location, distance)\<close>
  was called (the event fired, whether or not anyone listens).
  \<open>Invoked et f key l d\<close>: the callback \<open>f\<close>, registered for the event type \<open>et\<close>, was
  called as \<^verbatim>\<open>f(key, l, d)\<close>. \<open>Fired_ready\<close> and \<open>Invoked_ready f\<close> are the same for the
  ready event. \<open>Store_on a b\<close>: the three listeners were attached to the range from \<open>a\<close> to
  \<open>b\<close>; \<open>Store_once_value a b\<close>: the one-off value listener; \<open>Store_off a b\<close>: the three
  listeners were detached; \<open>Store_read key\<close>: a point read of \<open>key\<close> was issued.
\<close>

record 'raw collaborators =
  distance :: "latlon \<Rightarrow> latlon \<Rightarrow> real"
  encodeGeohash :: "latlon \<Rightarrow> nat option \<Rightarrow> string"
  g_GEOHASH_PRECISION :: nat
  geohashQueries :: "latlon \<Rightarrow> real \<Rightarrow> (string \<times> string) list"
  decodeGeofireObject :: "'raw \<Rightarrow> latlon option"
  validateLocation :: "latlon \<Rightarrow> bool"
  validateCriteria :: "criteria \<Rightarrow> bool \<Rightarrow> bool"
  toNumber :: "string \<Rightarrow> real option"

text \<open>
  \<open>validateLocation\<close> and \<open>validateCriteria\<close> throw in the source; here they say whether
  they return. \<open>decodeGeofireObject\<close> returns a location or \<^verbatim>\<open>null\<close>. \<open>toNumber\<close> is the
  conversion JavaScript applies to a string that is compared with \<^verbatim>\<open>null\<close> (\<open>None\<close> for
  NaN).
\<close>

record geoQuery =
  callbacks :: "string \<Rightarrow> nat list"
  valueEventFired :: bool
  geohashesToQuery :: "string list"
  numGeohashesToQueryProcessed :: nat
  locations :: "(string \<times> locationDict) list"
  locations_proto :: "locationDict option"
  currentGeohashesQueried :: "(string \<times> bool) list"
  geohashCleanupScheduled :: bool
  cleanUpCurrentGeohashesQueriedTimeout :: "nat option"
  center :: latlon
  radius :: real
  trace :: "effect list"

text \<open>
  \<open>locations\<close> holds the own properties of \<^verbatim>\<open>_locations\<close>; \<open>locations_proto\<close> is the row
  that has become the prototype of \<^verbatim>\<open>_locations\<close>, if any (\<open>None\<close>: the prototype is
  \<^verbatim>\<open>Object.prototype\<close>, as for every object made by \<^verbatim>\<open>{}\<close>).
\<close>

type_synonym outcome = "error option \<times> geoQuery"

definition emit :: "effect list \<Rightarrow> geoQuery \<Rightarrow> geoQuery" where
  "emit es s = s\<lparr>trace := trace s @ es\<rparr>"

subsection \<open>Plain objects used as dictionaries\<close>

text \<open>
  \<^verbatim>\<open>for (var key in object)\<close> visits the own properties of a plain object in this order:
  first the keys that are array indices (the decimal numerals without a leading zero below
  \<open>2\<^sup>3\<^sup>2 - 1\<close>) in ascending numeric order, then every other key in insertion order.
\<close>

definition is_digit :: "char \<Rightarrow> bool" where
  "is_digit c = (c \<in> set ''0123456789'')"

definition digits_value :: "string \<Rightarrow> nat" where
  "digits_value str = foldl (\<lambda>n c. 10 * n + (of_char c - 48)) 0 str"

definition array_index :: "string \<Rightarrow> nat option" where
  "array_index key =
     (if key \<noteq> [] \<and> list_all is_digit key \<and> (key = ''0'' \<or> hd key \<noteq> CHR ''0'') \<and>
         digits_value key < 4294967295
      then Some (digits_value key) else None)"

definition for_in_keys :: "(string \<times> 'a) list \<Rightarrow> string list" where
  "for_in_keys al =
     sort_key (\<lambda>key. case array_index key of Some n \<Rightarrow> n | None \<Rightarrow> 0)
       (filter (\<lambda>key. array_index key \<noteq> None) (map fst al)) @
     filter (\<lambda>key. array_index key = None) (map fst al)"

text \<open>
  The three accesses of the source to \<^verbatim>\<open>_locations\<close> that a key can disturb.

  \<^item> \<^verbatim>\<open>_locations.hasOwnProperty(key)\<close>, and the read \<^verbatim>\<open>_locations[key]\<close> that it guards
    (lines 94, 125, 201, 336 and 412). The method is inherited from \<^verbatim>\<open>Object.prototype\<close>
    as long as no tracked key is itself called \<^verbatim>\<open>hasOwnProperty\<close>. Once a row is stored
    under that key, \<^verbatim>\<open>_locations.hasOwnProperty\<close> is that row, and calling it throws a
    \<^verbatim>\<open>TypeError\<close>. \<open>own_row\<close> is the row under a key when the call returns, \<open>None\<close> when
    it answers false.
  \<^item> The assignment \<^verbatim>\<open>_locations[key] = {...}\<close> (line 133). Under the key \<^verbatim>\<open>__proto__\<close> it
    goes to the setter inherited from \<^verbatim>\<open>Object.prototype\<close>: the row becomes the prototype
    of \<^verbatim>\<open>_locations\<close> and no own property is made, so \<^verbatim>\<open>hasOwnProperty("__proto__")\<close>
    stays false and \<^verbatim>\<open>delete\<close> of that key does nothing.
  \<^item> The read \<^verbatim>\<open>_locations[key]\<close> that no \<^verbatim>\<open>hasOwnProperty\<close> guards (line 209). For the
    key \<^verbatim>\<open>__proto__\<close> it gives the prototype. For another key without a row it gives
    \<^verbatim>\<open>undefined\<close> or something inherited (a method of \<^verbatim>\<open>Object.prototype\<close>, a field of
    the row that is the prototype): the source only reads \<^verbatim>\<open>isInQuery\<close> of it, which none
    of these has, so they all count as no row.

  After an assignment under \<^verbatim>\<open>__proto__\<close> the loops over \<^verbatim>\<open>_locations\<close> also visit the four
  fields of the prototype, after the own keys; \<^verbatim>\<open>hasOwnProperty\<close> answers false for them
  (or has thrown at the first own key), so the model leaves them out.

  The keys of \<^verbatim>\<open>_currentGeohashesQueried\<close> are made by \<^verbatim>\<open>_queryToString\<close> and contain a
  colon: none of them is an array index, \<^verbatim>\<open>__proto__\<close> or \<^verbatim>\<open>hasOwnProperty\<close>. For that
  object the order of \<^verbatim>\<open>for ... in\<close> is the insertion order and \<^verbatim>\<open>hasOwnProperty\<close> is the
  inherited method.
\<close>

definition own_row :: "geoQuery \<Rightarrow> string \<Rightarrow> error + locationDict option" where
  "own_row s key =
     (if map_of (locations s) ''hasOwnProperty'' \<noteq> None then Inl HasOwnProperty_not_a_function
      else Inr (map_of (locations s) key))"

definition locations_put :: "string \<Rightarrow> locationDict \<Rightarrow> geoQuery \<Rightarrow> geoQuery" where
  "locations_put key d s =
     (if key = ''__proto__'' then s\<lparr>locations_proto := Some d\<rparr>
      else s\<lparr>locations := AList.update key d (locations s)\<rparr>)"

definition locations_get :: "geoQuery \<Rightarrow> string \<Rightarrow> locationDict option" where
  "locations_get s key =
     (case map_of (locations s) key of
        Some d \<Rightarrow> Some d
      | None \<Rightarrow> if key = ''__proto__'' then locations_proto s else None)"

subsection \<open>Private methods\<close>

text \<open>
  \<^verbatim>\<open>_fireCallbacksForKey\<close>: each callback of the event type, in registration order; with a
  \<^verbatim>\<open>null\<close> location the callback gets \<^verbatim>\<open>(key, null, null)\<close>.
\<close>

definition fireCallbacksForKey ::
  "string \<Rightarrow> string \<Rightarrow> latlon option \<Rightarrow> real option \<Rightarrow> geoQuery \<Rightarrow> geoQuery" where
  "fireCallbacksForKey eventType key loc distanceFromCenter' s =
     emit (Fired eventType key loc distanceFromCenter' #
           map (\<lambda>callback.
                  (case loc of
                     None \<Rightarrow> Invoked eventType callback key None None
                   | Some l \<Rightarrow> Invoked eventType callback key (Some l) distanceFromCenter'))
               (callbacks s eventType)) s"

definition fireReadyEventCallbacks :: "geoQuery \<Rightarrow> geoQuery" where
  "fireReadyEventCallbacks s = emit (Fired_ready # map Invoked_ready (callbacks s ''ready'')) s"

text \<open>\<^verbatim>\<open>string.split(":")\<close>.\<close>

fun split_colon :: "string \<Rightarrow> string list" where
  "split_colon [] = [[]]"
| "split_colon (c # cs) =
     (if c = CHR '':'' then [] # split_colon cs
      else (case split_colon cs of
              [] \<Rightarrow> [[c]]
            | p # ps \<Rightarrow> (c # p) # ps))"

definition stringToQuery :: "string \<Rightarrow> error + (string \<times> string)" where
  "stringToQuery str =
     (let decoded = split_colon str
      in if length decoded \<noteq> 2 then Inl (Invalid_internal_state str)
         else Inr (decoded ! 0, decoded ! 1))"

text \<open>
  \<^verbatim>\<open>_queryToString\<close>. A query is a pair here, so the check \<^verbatim>\<open>query.length !== 2\<close> of the
  source never fails.
\<close>

definition queryToString :: "string \<times> string \<Rightarrow> string" where
  "queryToString query = fst query @ '':'' @ snd query"

definition geoQueryOff :: "string \<times> string \<Rightarrow> geoQuery \<Rightarrow> geoQuery" where
  "geoQueryOff query s = emit [Store_off (fst query) (snd query)] s"

text \<open>
  The comparisons \<^verbatim>\<open>geohash >= query[0]\<close> and \<^verbatim>\<open>geohash <= query[1]\<close>: between two
  strings, the order of strings; with \<^verbatim>\<open>null\<close> on the left, \<^verbatim>\<open>null\<close> is 0 and the string
  is converted to a number, and a comparison with NaN is false.
\<close>

definition js_ge :: "(string \<Rightarrow> real option) \<Rightarrow> string option \<Rightarrow> string \<Rightarrow> bool" where
  "js_ge toNum g b =
     (case g of
        Some x \<Rightarrow> b \<le> x
      | None \<Rightarrow> (case toNum b of None \<Rightarrow> False | Some n \<Rightarrow> n \<le> 0))"

definition js_le :: "(string \<Rightarrow> real option) \<Rightarrow> string option \<Rightarrow> string \<Rightarrow> bool" where
  "js_le toNum g b =
     (case g of
        Some x \<Rightarrow> x \<le> b
      | None \<Rightarrow> (case toNum b of None \<Rightarrow> False | Some n \<Rightarrow> 0 \<le> n))"

text \<open>\<^verbatim>\<open>_geohashInSomeQuery\<close>: the loop over the keys of \<^verbatim>\<open>_currentGeohashesQueried\<close>.\<close>

fun geohashInSomeQuery_loop ::
  "(string \<Rightarrow> real option) \<Rightarrow> string option \<Rightarrow> string list \<Rightarrow> error + bool" where
  "geohashInSomeQuery_loop toNum g [] = Inr False"
| "geohashInSomeQuery_loop toNum g (queryStr # rest) =
     (case stringToQuery queryStr of
        Inl e \<Rightarrow> Inl e
      | Inr query \<Rightarrow>
          if js_ge toNum g (fst query) \<and> js_le toNum g (snd query) then Inr True
          else geohashInSomeQuery_loop toNum g rest)"

definition geohashInSomeQuery ::
  "'raw collaborators \<Rightarrow> string option \<Rightarrow> geoQuery \<Rightarrow> error + bool" where
  "geohashInSomeQuery env g s =
     geohashInSomeQuery_loop (toNumber env) g (map fst (currentGeohashesQueried s))"

text \<open>
  \<^verbatim>\<open>_cleanUpCurrentGeohashesQueried\<close>. Each loop runs over the keys present when it
  starts; its body deletes at most the key it is at. An exception ends the function where
  it is thrown: the lines after the loop are not reached.
\<close>

fun cleanUp_queries :: "string list \<Rightarrow> geoQuery \<Rightarrow> outcome" where
  "cleanUp_queries [] s = (None, s)"
| "cleanUp_queries (geohashQueryStr # rest) s =
     (if map_of (currentGeohashesQueried s) geohashQueryStr = Some False then
        (case stringToQuery geohashQueryStr of
           Inl e \<Rightarrow> (Some e, s)
         | Inr query \<Rightarrow>
             cleanUp_queries rest
               ((geoQueryOff query s)
                  \<lparr>currentGeohashesQueried :=
                     AList.delete geohashQueryStr (currentGeohashesQueried s)\<rparr>))
      else cleanUp_queries rest s)"

fun cleanUp_locations :: "'raw collaborators \<Rightarrow> string list \<Rightarrow> geoQuery \<Rightarrow> outcome" where
  "cleanUp_locations env [] s = (None, s)"
| "cleanUp_locations env (key # rest) s =
     (case own_row s key of
        Inl e \<Rightarrow> (Some e, s)
      | Inr None \<Rightarrow> cleanUp_locations env rest s
      | Inr (Some locationDict) \<Rightarrow>
          (case geohashInSomeQuery env (Some (geohash locationDict)) s of
             Inl e \<Rightarrow> (Some e, s)
           | Inr True \<Rightarrow> cleanUp_locations env rest s
           | Inr False \<Rightarrow>
               cleanUp_locations env rest
                 (s\<lparr>locations := AList.delete key (locations s)\<rparr>)))"

definition cleanUp_finish :: "geoQuery \<Rightarrow> geoQuery" where
  "cleanUp_finish s =
     (let s1 = s\<lparr>geohashCleanupScheduled := False\<rparr>
      in if cleanUpCurrentGeohashesQueriedTimeout s1 \<noteq> None
         then (emit [Clear_timeout] s1)\<lparr>cleanUpCurrentGeohashesQueriedTimeout := None\<rparr>
         else s1)"

definition cleanUpCurrentGeohashesQueried :: "'raw collaborators \<Rightarrow> geoQuery \<Rightarrow> outcome" where
  "cleanUpCurrentGeohashesQueried env s =
     (case cleanUp_queries (map fst (currentGeohashesQueried s)) s of
        (Some e, s1) \<Rightarrow> (Some e, s1)
      | (None, s1) \<Rightarrow>
          (case cleanUp_locations env (for_in_keys (locations s1)) s1 of
             (Some e, s2) \<Rightarrow> (Some e, s2)
           | (None, s2) \<Rightarrow> (None, cleanUp_finish s2)))"

text \<open>
  \<^verbatim>\<open>_updateLocation\<close>. The two calls of \<^verbatim>\<open>_locations.hasOwnProperty(key)\<close> (lines 125 and
  126) give the same answer; \<open>old\<close> is the row they find.
\<close>

definition updateLocation :: "'raw collaborators \<Rightarrow> string \<Rightarrow> latlon \<Rightarrow> geoQuery \<Rightarrow> outcome" where
  "updateLocation env key loc s =
     (if \<not> validateLocation env loc then (Some Invalid_location, s)
      else
        case own_row s key of
          Inl e \<Rightarrow> (Some e, s)
        | Inr old \<Rightarrow>
            let wasInQuery = (case old of Some d \<Rightarrow> isInQuery d | None \<Rightarrow> False);
                oldLocation = (case old of Some d \<Rightarrow> Some (location d) | None \<Rightarrow> None);
                distanceFromCenter' = distance env loc (center s);
                isInQuery' = (distanceFromCenter' \<le> radius s);
                s1 = locations_put key
                       \<lparr>location = loc,
                        distanceFromCenter = distanceFromCenter',
                        isInQuery = isInQuery',
                        geohash = encodeGeohash env loc (Some (g_GEOHASH_PRECISION env))\<rparr> s
            in if isInQuery' \<and> wasInQuery = False then
                 (None, fireCallbacksForKey ''key_entered'' key (Some loc) (Some distanceFromCenter') s1)
               else if isInQuery' \<and>
                       (case oldLocation of
                          None \<Rightarrow> False
                        | Some l \<Rightarrow> fst loc \<noteq> fst l \<or> snd loc \<noteq> snd l) then
                 (None, fireCallbacksForKey ''key_moved'' key (Some loc) (Some distanceFromCenter') s1)
               else if isInQuery' = False \<and> wasInQuery then
                 (None, fireCallbacksForKey ''key_exited'' key (Some loc) (Some distanceFromCenter') s1)
               else (None, s1))"

text \<open>\<^verbatim>\<open>_childAddedCallback\<close> and \<^verbatim>\<open>_childChangedCallback\<close>: the snapshot is its name and value.\<close>

definition childAddedCallback :: "'raw collaborators \<Rightarrow> string \<Rightarrow> 'raw \<Rightarrow> geoQuery \<Rightarrow> outcome" where
  "childAddedCallback env name val s =
     (case decodeGeofireObject env val of
        None \<Rightarrow> (None, s)
      | Some loc \<Rightarrow> updateLocation env name loc s)"

definition childChangedCallback :: "'raw collaborators \<Rightarrow> string \<Rightarrow> 'raw \<Rightarrow> geoQuery \<Rightarrow> outcome" where
  "childChangedCallback env name val s =
     (case decodeGeofireObject env val of
        None \<Rightarrow> (None, s)
      | Some loc \<Rightarrow> updateLocation env name loc s)"

text \<open>
  \<^verbatim>\<open>_childRemovedCallback\<close> issues the point read for a tracked key;
  \<open>childRemovedCallback_value\<close> is the function it passes to \<^verbatim>\<open>once("value", ...)\<close>, called
  by the store with the value read.
\<close>

definition childRemovedCallback :: "string \<Rightarrow> geoQuery \<Rightarrow> outcome" where
  "childRemovedCallback key s =
     (case own_row s key of
        Inl e \<Rightarrow> (Some e, s)
      | Inr None \<Rightarrow> (None, s)
      | Inr (Some locationDict) \<Rightarrow> (None, emit [Store_read key] s))"

definition childRemovedCallback_value ::
  "'raw collaborators \<Rightarrow> string \<Rightarrow> 'raw \<Rightarrow> geoQuery \<Rightarrow> outcome" where
  "childRemovedCallback_value env key val s =
     (let loc = decodeGeofireObject env val;
          geohash' = (case loc of Some l \<Rightarrow> Some (encodeGeohash env l None) | None \<Rightarrow> None)
      in case geohashInSomeQuery env geohash' s of
           Inl e \<Rightarrow> (Some e, s)
         | Inr True \<Rightarrow> (None, s)
         | Inr False \<Rightarrow>
             (let locationDict = locations_get s key;
                  s1 = s\<lparr>locations := AList.delete key (locations s)\<rparr>
              in if (case locationDict of None \<Rightarrow> False | Some d \<Rightarrow> isInQuery d) then
                   (let distanceFromCenter' =
                          (case loc of Some l \<Rightarrow> Some (distance env l (center s1)) | None \<Rightarrow> None)
                    in (None, fireCallbacksForKey ''key_exited'' key loc distanceFromCenter' s1))
                 else (None, s1)))"

text \<open>\<^verbatim>\<open>_checkIfShouldFireReadyEvent\<close>.\<close>

definition checkIfShouldFireReadyEvent :: "geoQuery \<Rightarrow> geoQuery" where
  "checkIfShouldFireReadyEvent s =
     (let s1 = s\<lparr>numGeohashesToQueryProcessed := numGeohashesToQueryProcessed s + 1\<rparr>;
          s2 = s1\<lparr>valueEventFired :=
                    (numGeohashesToQueryProcessed s1 = length (geohashesToQuery s1))\<rparr>
      in if valueEventFired s2 then fireReadyEventCallbacks s2 else s2)"

text \<open>\<^verbatim>\<open>Array.prototype.indexOf\<close> (\<open>None\<close> for -1) and \<^verbatim>\<open>splice(index, 1)\<close>.\<close>

fun indexOf :: "'a list \<Rightarrow> 'a \<Rightarrow> nat option" where
  "indexOf [] y = None"
| "indexOf (x # xs) y =
     (if x = y then Some 0
      else (case indexOf xs y of None \<Rightarrow> None | Some i \<Rightarrow> Some (Suc i)))"

definition splice1 :: "nat \<Rightarrow> 'a list \<Rightarrow> 'a list" where
  "splice1 i xs = take i xs @ drop (Suc i) xs"

text \<open>The filter that keeps the first occurrence of each query string.\<close>

definition filter_duplicates :: "string list \<Rightarrow> string list" where
  "filter_duplicates xs =
     map fst (filter (\<lambda>(g, i). indexOf xs g = Some i) (zip xs [0 ..< length xs]))"

text \<open>\<^verbatim>\<open>_listenForNewGeohashes\<close>: the loop that marks the ranges already queried.\<close>

fun listen_mark :: "string list \<Rightarrow> geoQuery \<Rightarrow> geoQuery" where
  "listen_mark [] s = s"
| "listen_mark (geohashQueryStr # rest) s =
     (case indexOf (geohashesToQuery s) geohashQueryStr of
        None \<Rightarrow>
          listen_mark rest
            (s\<lparr>currentGeohashesQueried :=
                 AList.update geohashQueryStr False (currentGeohashesQueried s)\<rparr>)
      | Some index \<Rightarrow>
          listen_mark rest
            (s\<lparr>currentGeohashesQueried :=
                 AList.update geohashQueryStr True (currentGeohashesQueried s),
               geohashesToQuery := splice1 index (geohashesToQuery s)\<rparr>))"

text \<open>The \<^verbatim>\<open>forEach\<close> that attaches the listeners of the new ranges.\<close>

fun listen_attach :: "string list \<Rightarrow> geoQuery \<Rightarrow> outcome" where
  "listen_attach [] s = (None, s)"
| "listen_attach (toQueryStr # rest) s =
     (case stringToQuery toQueryStr of
        Inl e \<Rightarrow> (Some e, s)
      | Inr query \<Rightarrow>
          listen_attach rest
            (emit [Store_on (fst query) (snd query), Store_once_value (fst query) (snd query)]
               (s\<lparr>currentGeohashesQueried :=
                    AList.update toQueryStr True (currentGeohashesQueried s)\<rparr>)))"

definition listen_schedule :: "geoQuery \<Rightarrow> geoQuery" where
  "listen_schedule s =
     (if geohashCleanupScheduled s = False \<and> length (currentGeohashesQueried s) > 25 then
        emit [Set_timeout 10]
          (s\<lparr>geohashCleanupScheduled := True,
             cleanUpCurrentGeohashesQueriedTimeout := Some 10\<rparr>)
      else s)"

definition listenForNewGeohashes :: "'raw collaborators \<Rightarrow> geoQuery \<Rightarrow> outcome" where
  "listenForNewGeohashes env s =
     (let s1 = s\<lparr>geohashesToQuery :=
                   map queryToString (geohashQueries env (center s) (radius s * 1000))\<rparr>;
          s2 = s1\<lparr>geohashesToQuery := filter_duplicates (geohashesToQuery s1)\<rparr>;
          s3 = listen_mark (map fst (currentGeohashesQueried s2)) s2;
          s4 = listen_schedule s3;
          s5 = s4\<lparr>numGeohashesToQueryProcessed := 0\<rparr>
      in listen_attach (geohashesToQuery s5) s5)"

subsection \<open>Public methods\<close>

text \<open>
  The loop of \<^verbatim>\<open>updateCriteria\<close> over the tracked keys. The row is an object that the loop
  changes in place: its key keeps its place in the table.
\<close>

fun updateCriteria_loop :: "'raw collaborators \<Rightarrow> string list \<Rightarrow> geoQuery \<Rightarrow> outcome" where
  "updateCriteria_loop env [] s = (None, s)"
| "updateCriteria_loop env (key # rest) s =
     (case own_row s key of
        Inl e \<Rightarrow> (Some e, s)
      | Inr None \<Rightarrow> updateCriteria_loop env rest s
      | Inr (Some locationDict) \<Rightarrow>
          (let wasAlreadyInQuery = isInQuery locationDict;
               d = distance env (location locationDict) (center s);
               locationDict' = locationDict\<lparr>distanceFromCenter := d, isInQuery := (d \<le> radius s)\<rparr>;
               s1 = s\<lparr>locations := AList.update key locationDict' (locations s)\<rparr>
           in if wasAlreadyInQuery \<and> \<not> isInQuery locationDict' then
                updateCriteria_loop env rest
                  (fireCallbacksForKey ''key_exited'' key (Some (location locationDict'))
                     (Some (distanceFromCenter locationDict')) s1)
              else if \<not> wasAlreadyInQuery \<and> isInQuery locationDict' then
                updateCriteria_loop env rest
                  (fireCallbacksForKey ''key_entered'' key (Some (location locationDict'))
                     (Some (distanceFromCenter locationDict')) s1)
              else updateCriteria_loop env rest s1))"

text \<open>
  \<^verbatim>\<open>updateCriteria\<close>. \<^verbatim>\<open>newQueryCriteria.center || _center\<close> takes the new center when
  there is one (an array is never falsy); \<^verbatim>\<open>newQueryCriteria.radius || _radius\<close> takes the
  new radius unless it is absent or 0, which is falsy. Both are written before the loop
  starts; an exception in the loop leaves them written, and the lines after the loop are not
  reached.
\<close>

definition updateCriteria :: "'raw collaborators \<Rightarrow> criteria \<Rightarrow> geoQuery \<Rightarrow> outcome" where
  "updateCriteria env newQueryCriteria s =
     (if \<not> validateCriteria env newQueryCriteria False then (Some Invalid_criteria, s)
      else
        let s1 = s\<lparr>center := (case crit_center newQueryCriteria of
                                Some c \<Rightarrow> c | None \<Rightarrow> center s)\<rparr>;
            s2 = s1\<lparr>radius := (case crit_radius newQueryCriteria of
                                 Some r \<Rightarrow> if r = 0 then radius s1 else r
                               | None \<Rightarrow> radius s1)\<rparr>
        in case updateCriteria_loop env (for_in_keys (locations s2)) s2 of
             (Some e, s3) \<Rightarrow> (Some e, s3)
           | (None, s3) \<Rightarrow> listenForNewGeohashes env (s3\<lparr>valueEventFired := False\<rparr>))"

text \<open>
  \<^verbatim>\<open>on\<close>: the replay of a new \<^verbatim>\<open>key_entered\<close> callback over the tracked keys. The
  callback is pushed on the list before the replay starts.
\<close>

fun on_replay :: "nat \<Rightarrow> string list \<Rightarrow> geoQuery \<Rightarrow> outcome" where
  "on_replay callback [] s = (None, s)"
| "on_replay callback (key # rest) s =
     (case own_row s key of
        Inl e \<Rightarrow> (Some e, s)
      | Inr None \<Rightarrow> on_replay callback rest s
      | Inr (Some locationDict) \<Rightarrow>
          if isInQuery locationDict then
            on_replay callback rest
              (emit [Invoked ''key_entered'' callback key (Some (location locationDict))
                       (Some (distanceFromCenter locationDict))] s)
          else on_replay callback rest s)"

definition on :: "string \<Rightarrow> callback_arg \<Rightarrow> geoQuery \<Rightarrow> outcome" where
  "on eventType callback s =
     (if eventType \<notin> set [''ready'', ''key_entered'', ''key_exited'', ''key_moved''] then
        (Some Invalid_event_type, s)
      else
        (case callback of
           Not_a_function \<Rightarrow> (Some Callback_not_a_function, s)
         | Fn f \<Rightarrow>
             (let s1 = s\<lparr>callbacks := (callbacks s)(eventType := callbacks s eventType @ [f])\<rparr>
              in case (if eventType = ''key_entered''
                       then on_replay f (for_in_keys (locations s1)) s1 else (None, s1)) of
                   (Some e, s2) \<Rightarrow> (Some e, s2)
                 | (None, s2) \<Rightarrow>
                     (None,
                      if eventType = ''ready''
                      then (if valueEventFired s2 then emit [Invoked_ready f] s2 else s2)
                      else s2))))"

text \<open>\<^verbatim>\<open>cancel\<close>. \<^verbatim>\<open>_locations = {}\<close> is a new object, with the prototype of every plain object.\<close>

fun cancel_queries :: "string list \<Rightarrow> geoQuery \<Rightarrow> outcome" where
  "cancel_queries [] s = (None, s)"
| "cancel_queries (geohashQueryStr # rest) s =
     (case stringToQuery geohashQueryStr of
        Inl e \<Rightarrow> (Some e, s)
      | Inr query \<Rightarrow>
          cancel_queries rest
            ((geoQueryOff query s)
               \<lparr>currentGeohashesQueried :=
                  AList.delete geohashQueryStr (currentGeohashesQueried s)\<rparr>))"

definition cancel :: "geoQuery \<Rightarrow> outcome" where
  "cancel s =
     (let s1 = s\<lparr>callbacks := (\<lambda>eventType. [])\<rparr>
      in case cancel_queries (map fst (currentGeohashesQueried s1)) s1 of
           (Some e, s2) \<Rightarrow> (Some e, s2)
         | (None, s2) \<Rightarrow> (None, emit [Clear_interval] (s2\<lparr>locations := [], locations_proto := None\<rparr>)))"

text \<open>
  The constructor. The variables are initialised in the order of the source; the two that
  are declared without a value (\<^verbatim>\<open>_geohashesToQuery\<close>, \<^verbatim>\<open>_numGeohashesToQueryProcessed\<close>)
  start as the empty list and 0, and are assigned by \<^verbatim>\<open>_listenForNewGeohashes\<close> before
  they are read. With \<^verbatim>\<open>requireCenterAndRadius\<close> the validation does not return when an
  attribute is missing.
\<close>

definition GeoQuery :: "'raw collaborators \<Rightarrow> criteria \<Rightarrow> outcome" where
  "GeoQuery env queryCriteria =
     (let s0 = \<lparr>callbacks = (\<lambda>eventType. []),
                valueEventFired = False,
                geohashesToQuery = [],
                numGeohashesToQueryProcessed = 0,
                locations = [],
                locations_proto = None,
                currentGeohashesQueried = [],
                geohashCleanupScheduled = False,
                cleanUpCurrentGeohashesQueriedTimeout = None,
                center = (0, 0),
                radius = 0,
                trace = [Set_interval 10000]\<rparr>
      in case (validateCriteria env queryCriteria True,
               crit_center queryCriteria, crit_radius queryCriteria) of
           (True, Some c, Some r) \<Rightarrow> listenForNewGeohashes env (s0\<lparr>center := c, radius := r\<rparr>)
         | _ \<Rightarrow> (Some Invalid_criteria, s0))"

subsection \<open>What reaches the engine\<close>

text \<open>
  The calls that reach one engine instance: the store's notifications of a range listener,
  the completion of a point read, the value event of a newly attached range, the two
  timers, and the calls of the client. The function \<open>step\<close> runs the handler; an exception
  goes to the caller and the state stays as the handler left it.
\<close>

datatype 'raw input =
    Child_added string 'raw
  | Child_changed string 'raw
  | Child_removed string
  | Read_value string 'raw
  | Value_event
  | Timeout_elapsed
  | Interval_elapsed
  | Update_criteria criteria
  | On string callback_arg
  | Cancel

fun step :: "'raw collaborators \<Rightarrow> 'raw input \<Rightarrow> geoQuery \<Rightarrow> geoQuery" where
  "step env (Child_added name val) s = snd (childAddedCallback env name val s)"
| "step env (Child_changed name val) s = snd (childChangedCallback env name val s)"
| "step env (Child_removed name) s = snd (childRemovedCallback name s)"
| "step env (Read_value key val) s = snd (childRemovedCallback_value env key val s)"
| "step env Value_event s = checkIfShouldFireReadyEvent s"
| "step env Timeout_elapsed s = snd (cleanUpCurrentGeohashesQueried env s)"
| "step env Interval_elapsed s =
     (if geohashCleanupScheduled s = False then snd (cleanUpCurrentGeohashesQueried env s) else s)"
| "step env (Update_criteria c) s = snd (updateCriteria env c s)"
| "step env (On eventType callback) s = snd (on eventType callback s)"
| "step env Cancel s = snd (cancel s)"

fun run :: "'raw collaborators \<Rightarrow> 'raw input list \<Rightarrow> geoQuery \<Rightarrow> geoQuery" where
  "run env [] s = s"
| "run env (i # is) s = run env is (step env i s)"

subsection \<open>Reading the trace\<close>

text \<open>What a call appended to the trace.\<close>

definition new_trace :: "geoQuery \<Rightarrow> geoQuery \<Rightarrow> effect list" where
  "new_trace s s' = drop (length (trace s)) (trace s')"

fun invoked_with_key :: "string \<Rightarrow> effect \<Rightarrow> bool" where
  "invoked_with_key key (Invoked et f k l d) = (k = key)"
| "invoked_with_key key e = False"

fun is_timer :: "effect \<Rightarrow> bool" where
  "is_timer (Set_timeout n) = True"
| "is_timer Clear_timeout = True"
| "is_timer e = False"

fun is_store_effect :: "effect \<Rightarrow> bool" where
  "is_store_effect (Store_on a b) = True"
| "is_store_effect (Store_once_value a b) = True"
| "is_store_effect (Store_off a b) = True"
| "is_store_effect (Store_read k) = True"
| "is_store_effect e = False"

text \<open>
  The events are the entries of the trace that a client can see: an event fired, a
  callback called. \<open>is_fired et key\<close> recognises the firing of the event \<open>et\<close> for a key.
\<close>

fun is_event :: "effect \<Rightarrow> bool" where
  "is_event (Fired et k l d) = True"
| "is_event (Invoked et f k l d) = True"
| "is_event Fired_ready = True"
| "is_event (Invoked_ready f) = True"
| "is_event e = False"

fun is_invocation :: "effect \<Rightarrow> bool" where
  "is_invocation (Invoked et f k l d) = True"
| "is_invocation (Invoked_ready f) = True"
| "is_invocation e = False"

fun is_fired :: "string \<Rightarrow> string \<Rightarrow> effect \<Rightarrow> bool" where
  "is_fired eventType key (Fired et k l d) = (et = eventType \<and> k = key)"
| "is_fired eventType key e = False"

text \<open>The calls a replay of the callback \<open>f\<close> over the keys makes.\<close>

definition replayed :: "nat \<Rightarrow> geoQuery \<Rightarrow> string list \<Rightarrow> effect list" where
  "replayed f s keys =
     List.map_filter
       (\<lambda>key. case map_of (locations s) key of
                 None \<Rightarrow> None
               | Some d \<Rightarrow> if isInQuery d
                           then Some (Invoked ''key_entered'' f key (Some (location d))
                                        (Some (distanceFromCenter d)))
                           else None) keys"

subsection \<open>Notions the statements use\<close>

text \<open>
  The inputs that come from the store or from a timer, as opposed to the calls of the
  client.
\<close>

fun store_or_timer :: "'raw input \<Rightarrow> bool" where
  "store_or_timer (Update_criteria c) = False"
| "store_or_timer (On eventType callback) = False"
| "store_or_timer Cancel = False"
| "store_or_timer i = True"

text \<open>
  The events of a trace, and a query without any callback.
\<close>

definition events :: "geoQuery \<Rightarrow> effect list" where
  "events s = filter is_event (trace s)"

definition deaf :: "geoQuery \<Rightarrow> bool" where
  "deaf s = (callbacks s = (\<lambda>eventType. []))"

text \<open>
  The invariant of the location table: in every row \<open>isInQuery\<close> says whether the stored
  distance is within the current radius.
\<close>

definition rows_consistent :: "geoQuery \<Rightarrow> bool" where
  "rows_consistent s =
     list_all (\<lambda>(key, d). isInQuery d = (distanceFromCenter d \<le> radius s)) (locations s)"

text \<open>
  The coverage check, read off the registry: the range of a registered key holds a geohash
  when the key splits into two bounds and the geohash is between them, as
  \<^verbatim>\<open>>=\<close> and \<^verbatim>\<open><=\<close> compare (for \<^verbatim>\<open>null\<close>, see \<open>js_ge\<close>); the registry covers a geohash
  when the range of one of its keys holds it, whatever the flag of the key. The registry
  parses when every key splits into two bounds, as the keys made by \<^verbatim>\<open>_queryToString\<close> from
  bounds without a colon do.
\<close>

definition range_holds :: "(string \<Rightarrow> real option) \<Rightarrow> string option \<Rightarrow> string \<Rightarrow> bool" where
  "range_holds toNum g queryStr =
     (case stringToQuery queryStr of
        Inl e \<Rightarrow> False
      | Inr query \<Rightarrow> js_ge toNum g (fst query) \<and> js_le toNum g (snd query))"

definition registry_parses :: "geoQuery \<Rightarrow> bool" where
  "registry_parses s =
     list_all (\<lambda>(queryStr, active). case stringToQuery queryStr of Inl e \<Rightarrow> False | Inr query \<Rightarrow> True)
       (currentGeohashesQueried s)"

definition registry_covers :: "'raw collaborators \<Rightarrow> geoQuery \<Rightarrow> string option \<Rightarrow> bool" where
  "registry_covers env s g =
     list_ex (\<lambda>(queryStr, active). range_holds (toNumber env) g queryStr)
       (currentGeohashesQueried s)"

text \<open>
  Reading a trace for one key: \<open>entered_once key b es\<close> says that \<^verbatim>\<open>key_entered\<close> never
  fires in \<open>es\<close> for a key that is in the query at that moment, where \<open>b\<close> says whether the
  key is in the query before \<open>es\<close> and its last \<^verbatim>\<open>key_entered\<close> or \<^verbatim>\<open>key_exited\<close> decides
  afterwards: between two firings of \<^verbatim>\<open>key_entered\<close> there is one of \<^verbatim>\<open>key_exited\<close>.
  \<open>is_key_event\<close> recognises the firing of an event for a key.
\<close>

fun entered_once :: "string \<Rightarrow> bool \<Rightarrow> effect list \<Rightarrow> bool" where
  "entered_once key b [] = True"
| "entered_once key b (e # es) =
     (if is_fired ''key_entered'' key e then \<not> b \<and> entered_once key True es
      else if is_fired ''key_exited'' key e then entered_once key False es
      else entered_once key b es)"

fun is_key_event :: "effect \<Rightarrow> bool" where
  "is_key_event (Fired et k l d) = True"
| "is_key_event e = False"

subsection \<open>Example collaborators and states\<close>

text \<open>
  A small world for the concrete instances: the distance is the sum of the coordinate
  differences, there are two geohash cells (latitude below 10 and from 10 on), and the
  covering ranges of a circle are the cells it can reach. The raw stored value is the
  location itself, or nothing. The conversion to a number knows the strings of decimal
  digits and the empty string (which is 0) and takes every other string for NaN, as
  JavaScript does with the bounds used here.
\<close>

definition env_ex :: "latlon option collaborators" where
  "env_ex =
     \<lparr>distance = (\<lambda>a b. \<bar>fst a - fst b\<bar> + \<bar>snd a - snd b\<bar>),
      encodeGeohash = (\<lambda>l p. if fst l < 10 then ''a'' else ''b''),
      g_GEOHASH_PRECISION = 10,
      geohashQueries = (\<lambda>c r. (if fst c - r / 1000 < 10 then [(''a'', ''a~'')] else []) @
                                (if 10 \<le> fst c + r / 1000 then [(''b'', ''b~'')] else [])),
      decodeGeofireObject = (\<lambda>v. v),
      validateLocation = (\<lambda>l. True),
      validateCriteria = (\<lambda>c required. True),
      toNumber = (\<lambda>str. if list_all is_digit str then Some (real (digits_value str)) else None)\<rparr>"

text \<open>The same world with 26 covering ranges for every circle.\<close>

definition env26 :: "latlon option collaborators" where
  "env26 = env_ex\<lparr>geohashQueries :=
              (\<lambda>c r. map (\<lambda>ch. ([ch], [ch, CHR ''~''])) ''abcdefghijklmnopqrstuvwxyz'')\<rparr>"

definition keys26 :: "string list" where
  "keys26 = map (\<lambda>ch. [ch, CHR '':'', ch, CHR ''~'']) ''abcdefghijklmnopqrstuvwxyz''"

definition crit_ex :: criteria where
  "crit_ex = \<lparr>crit_center = Some (0, 0), crit_radius = Some 5\<rparr>"

text \<open>
  A query around (0, 0) with radius 5 that is ready, has one \<^verbatim>\<open>key_exited\<close> callback and
  tracks two keys, one inside the radius and one outside.
\<close>

definition s_tracked :: geoQuery where
  "s_tracked =
     \<lparr>callbacks = (\<lambda>eventType. if eventType = ''key_exited'' then [3] else []),
      valueEventFired = True,
      geohashesToQuery = [''a:a~''],
      numGeohashesToQueryProcessed = 1,
      locations =
        [(''k1'', \<lparr>location = (1, 0), distanceFromCenter = 1, isInQuery = True, geohash = ''a''\<rparr>),
         (''k2'', \<lparr>location = (7, 0), distanceFromCenter = 7, isInQuery = False, geohash = ''a''\<rparr>)],
      locations_proto = None,
      currentGeohashesQueried = [(''a:a~'', True)],
      geohashCleanupScheduled = False,
      cleanUpCurrentGeohashesQueriedTimeout = None,
      center = (0, 0),
      radius = 5,
      trace = []\<rparr>"

text \<open>
  The query has moved from (0, 0) to (20, 0): the range of the first cell is marked for
  teardown and not yet cleaned up, and the key tracked there is outside the radius.
\<close>

definition s_moved :: geoQuery where
  "s_moved =
     \<lparr>callbacks = (\<lambda>eventType. []),
      valueEventFired = False,
      geohashesToQuery = [''b:b~''],
      numGeohashesToQueryProcessed = 0,
      locations =
        [(''k1'', \<lparr>location = (1, 0), distanceFromCenter = 19, isInQuery = False, geohash = ''a''\<rparr>)],
      locations_proto = None,
      currentGeohashesQueried = [(''a:a~'', False), (''b:b~'', True)],
      geohashCleanupScheduled = False,
      cleanUpCurrentGeohashesQueriedTimeout = None,
      center = (20, 0),
      radius = 5,
      trace = []\<rparr>"

text \<open>
  The query of \<open>s_tracked\<close> when its one registered range runs from the geohash \<open>0\<close> to
  the geohash \<open>8\<close>: both bounds are numerals.
\<close>

definition s_numerals :: geoQuery where
  "s_numerals =
     s_tracked\<lparr>geohashesToQuery := [''0:8''], currentGeohashesQueried := [(''0:8'', True)]\<rparr>"

text \<open>A criteria change that keeps the center and asks for the radius 0, and one for 1/2.\<close>

definition crit_zero :: criteria where
  "crit_zero = \<lparr>crit_center = None, crit_radius = Some 0\<rparr>"

definition crit_half :: criteria where
  "crit_half = \<lparr>crit_center = None, crit_radius = Some (1 / 2)\<rparr>"

text \<open>
  The new query around (0, 0) with radius 5 after the store has reported a location at
  (1, 0) under the key \<^verbatim>\<open>hasOwnProperty\<close>.
\<close>

definition s_shadowed :: geoQuery where
  "s_shadowed =
     run env_ex [Child_added ''hasOwnProperty'' (Some (1, 0))] (snd (GeoQuery env_ex crit_ex))"

section \<open>Properties\<close>

subsection \<open>The trace and the fields a function leaves alone\<close>

lemma emit_simps [simp]:
  "trace (emit es s) = trace s @ es"
  "locations (emit es s) = locations s"
  "locations_proto (emit es s) = locations_proto s"
  "currentGeohashesQueried (emit es s) = currentGeohashesQueried s"
  "callbacks (emit es s) = callbacks s"
  "center (emit es s) = center s"
  "radius (emit es s) = radius s"
  "valueEventFired (emit es s) = valueEventFired s"
  "geohashesToQuery (emit es s) = geohashesToQuery s"
  "numGeohashesToQueryProcessed (emit es s) = numGeohashesToQueryProcessed s"
  "geohashCleanupScheduled (emit es s) = geohashCleanupScheduled s"
  "cleanUpCurrentGeohashesQueriedTimeout (emit es s) = cleanUpCurrentGeohashesQueriedTimeout s"
  by (simp_all add: emit_def)

lemma emit_emit [simp]: "emit es (emit ds s) = emit (ds @ es) s"
  by (simp add: emit_def)

lemma emit_Nil [simp]: "emit [] s = s"
  by (simp add: emit_def)

lemma own_row_emit [simp]: "own_row (emit es s) key = own_row s key"
  by (simp add: own_row_def)

subsection \<open>The order of \<^verbatim>\<open>for ... in\<close>\<close>

lemma for_in_keys_set [simp]: "set (for_in_keys al) = fst ` set al"
  by (auto simp: for_in_keys_def)

lemma for_in_keys_distinct [simp]: "distinct (for_in_keys al) = distinct (map fst al)"
proof -
  have "distinct (filter P xs @ filter (\<lambda>x. \<not> P x) xs) = distinct xs" for P and xs :: "string list"
    by (induction xs) auto
  from this [of "\<lambda>key. array_index key \<noteq> None" "map fst al"] show ?thesis
    by (auto simp: for_in_keys_def)
qed

lemma for_in_keys_plain:
  "\<forall>key \<in> fst ` set al. array_index key = None \<Longrightarrow> for_in_keys al = map fst al"
proof -
  assume a: "\<forall>key \<in> fst ` set al. array_index key = None"
  then have "filter (\<lambda>key. array_index key \<noteq> None) (map fst al) = []"
    by (simp add: filter_empty_conv)
  moreover have "filter (\<lambda>key. array_index key = None) (map fst al) = map fst al"
    using a by (simp add: filter_id_conv)
  ultimately show ?thesis by (simp add: for_in_keys_def)
qed

text \<open>
  An example of the order: the array indices come first, in numeric order; \<open>007\<close> has a
  leading zero and \<open>4294967295\<close> is too big for an array index.
\<close>

lemma for_in_keys_example:
  "for_in_keys [(''k1'', a), (''10'', b), (''007'', c), (''9'', d), (''4294967295'', e), (''0'', f)] =
     [''0'', ''9'', ''10'', ''k1'', ''007'', ''4294967295'']"
  by (simp add: for_in_keys_def array_index_def is_digit_def digits_value_def)

subsection \<open>The example states\<close>

text \<open>The example state \<open>s_tracked\<close> is one the engine reaches.\<close>

lemma s_tracked_reachable:
  "run env_ex
     [On ''key_exited'' (Fn 3), Value_event,
      Child_added ''k1'' (Some (1, 0)), Child_added ''k2'' (Some (7, 0))]
     (snd (GeoQuery env_ex crit_ex)) =
   s_tracked\<lparr>trace :=
     [Set_interval 10000, Store_on ''a'' ''a~'', Store_once_value ''a'' ''a~'', Fired_ready,
      Fired ''key_entered'' ''k1'' (Some (1, 0)) (Some 1)]\<rparr>"
  apply (simp add: GeoQuery_def env_ex_def crit_ex_def listenForNewGeohashes_def
      filter_duplicates_def queryToString_def listen_schedule_def stringToQuery_def Let_def on_def
      checkIfShouldFireReadyEvent_def fireReadyEventCallbacks_def childAddedCallback_def
      updateLocation_def own_row_def locations_put_def fireCallbacksForKey_def s_tracked_def
      emit_def)
  apply (rule ext)
  apply simp
  done

lemma GeoQuery_env_ex:
  "GeoQuery env_ex crit_ex =
     (None,
      \<lparr>callbacks = (\<lambda>eventType. []),
       valueEventFired = False,
       geohashesToQuery = [''a:a~''],
       numGeohashesToQueryProcessed = 0,
       locations = [],
       locations_proto = None,
       currentGeohashesQueried = [(''a:a~'', True)],
       geohashCleanupScheduled = False,
       cleanUpCurrentGeohashesQueriedTimeout = None,
       center = (0, 0),
       radius = 5,
       trace = [Set_interval 10000, Store_on ''a'' ''a~'', Store_once_value ''a'' ''a~'']\<rparr>)"
  by (simp add: GeoQuery_def env_ex_def crit_ex_def listenForNewGeohashes_def
      filter_duplicates_def queryToString_def listen_schedule_def stringToQuery_def Let_def
      emit_def)

lemma s_shadowed_eq:
  "s_shadowed =
     \<lparr>callbacks = (\<lambda>eventType. []),
      valueEventFired = False,
      geohashesToQuery = [''a:a~''],
      numGeohashesToQueryProcessed = 0,
      locations =
        [(''hasOwnProperty'',
          \<lparr>location = (1, 0), distanceFromCenter = 1, isInQuery = True, geohash = ''a''\<rparr>)],
      locations_proto = None,
      currentGeohashesQueried = [(''a:a~'', True)],
      geohashCleanupScheduled = False,
      cleanUpCurrentGeohashesQueriedTimeout = None,
      center = (0, 0),
      radius = 5,
      trace = [Set_interval 10000, Store_on ''a'' ''a~'', Store_once_value ''a'' ''a~'',
               Fired ''key_entered'' ''hasOwnProperty'' (Some (1, 0)) (Some 1)]\<rparr>"
proof -
  have "decodeGeofireObject env_ex v = v" "validateLocation env_ex l"
    "distance env_ex (1, 0) (0, 0) = 1" "encodeGeohash env_ex (1, 0) p = ''a''" for v l p
    by (simp_all add: env_ex_def)
  then show ?thesis
    by (simp add: s_shadowed_def GeoQuery_env_ex childAddedCallback_def updateLocation_def
        own_row_def locations_put_def fireCallbacksForKey_def Let_def emit_def)
qed

subsection \<open>Replaying a new \<^verbatim>\<open>key_entered\<close> callback\<close>

lemma replayed_emit [simp]: "replayed f (emit es s) keys = replayed f s keys"
  by (simp add: replayed_def)

lemma on_replay_result:
  "on_replay f keys s =
     (if map_of (locations s) ''hasOwnProperty'' \<noteq> None \<and> keys \<noteq> []
      then (Some HasOwnProperty_not_a_function, s)
      else (None, emit (replayed f s keys) s))"
proof (induction keys arbitrary: s)
  case Nil
  show ?case by (simp add: replayed_def map_filter_simps)
next
  case (Cons key keys)
  show ?case
  proof (cases "map_of (locations s) ''hasOwnProperty''")
    case (Some d)
    then show ?thesis by (simp add: own_row_def)
  next
    case None
    then show ?thesis
      by (cases "map_of (locations s) key")
         (simp_all add: own_row_def Cons.IH, simp_all add: replayed_def map_filter_simps)
  qed
qed

lemma replayed_count:
  assumes "distinct keys"
  shows "length (filter (invoked_with_key key) (replayed f s keys)) =
         (if key \<in> set keys \<and> (case map_of (locations s) key of None \<Rightarrow> False | Some d \<Rightarrow> isInQuery d) then 1 else 0)"
  using assms
  by (induction keys) (auto simp: replayed_def split: option.splits)

lemma for_in_keys_Nil_iff [simp]: "for_in_keys al = [] \<longleftrightarrow> al = []"
  using for_in_keys_set [of al] by (metis image_is_empty set_empty)

lemma on_key_entered:
  "on ''key_entered'' (Fn f) s =
     (if map_of (locations s) ''hasOwnProperty'' \<noteq> None
      then (Some HasOwnProperty_not_a_function,
            s\<lparr>callbacks := (callbacks s)(''key_entered'' := callbacks s ''key_entered'' @ [f])\<rparr>)
      else (None,
            emit (replayed f s (for_in_keys (locations s)))
              (s\<lparr>callbacks := (callbacks s)(''key_entered'' := callbacks s ''key_entered'' @ [f])\<rparr>)))"
proof -
  have "locations s \<noteq> []" if "map_of (locations s) ''hasOwnProperty'' \<noteq> None"
    using that by auto
  then show ?thesis
    by (simp add: on_def on_replay_result replayed_def)
qed

text \<open>
  As long as no tracked key is called \<^verbatim>\<open>hasOwnProperty\<close>, registering a \<^verbatim>\<open>key_entered\<close>
  listener calls the new callback, and nothing else, once for each tracked key whose
  \<open>isInQuery\<close> flag is true (with the stored location and distance, in the order of
  \<^verbatim>\<open>for ... in\<close>) and for no key whose flag is false.
\<close>

lemma on_key_entered_replay:
  assumes "map_of (locations s) ''hasOwnProperty'' = None"
    and "distinct (map fst (locations s))"
  shows "fst (on ''key_entered'' (Fn f) s) = None \<and>
         new_trace s (snd (on ''key_entered'' (Fn f) s)) = replayed f s (for_in_keys (locations s)) \<and>
         length (filter (invoked_with_key key) (new_trace s (snd (on ''key_entered'' (Fn f) s)))) =
                (if (case map_of (locations s) key of None \<Rightarrow> False | Some d \<Rightarrow> isInQuery d) then 1 else 0)"
proof -
  let ?s' = "snd (on ''key_entered'' (Fn f) s)"
  have t: "new_trace s ?s' = replayed f s (for_in_keys (locations s))"
    using assms(1) by (simp add: on_key_entered new_trace_def)
  have k: "key \<notin> fst ` set (locations s) \<Longrightarrow> map_of (locations s) key = None"
    by (simp add: map_of_eq_None_iff)
  have d: "distinct (for_in_keys (locations s))" using assms(2) by simp
  have c: "length (filter (invoked_with_key key) (new_trace s ?s')) =
                (if (case map_of (locations s) key of None \<Rightarrow> False | Some d \<Rightarrow> isInQuery d) then 1 else 0)"
    unfolding t replayed_count [OF d] using k by (cases "key \<in> fst ` set (locations s)") simp_all
  show ?thesis
    using c t assms(1) by (simp add: on_key_entered)
qed

text \<open>
  Claim C6 on the code. The store has reported one location, inside the radius, under the
  key \<^verbatim>\<open>hasOwnProperty\<close>: the key is tracked and its \<open>isInQuery\<close> flag is true. The claim
  has \<^verbatim>\<open>on("key_entered", f)\<close> call \<open>f\<close> once for that key. The code pushes \<open>f\<close> on the list
  of callbacks, enters the replay loop and throws a \<^verbatim>\<open>TypeError\<close> at the first
  \<^verbatim>\<open>_locations.hasOwnProperty(key)\<close>, which is now the row of that key and not a function:
  \<open>f\<close> is called for no key.
\<close>

theorem on_key_entered_throws_when_hasOwnProperty_is_tracked:
  "map_of (locations s_shadowed) ''hasOwnProperty'' =
     Some \<lparr>location = (1, 0), distanceFromCenter = 1, isInQuery = True, geohash = ''a''\<rparr> \<and>
   fst (on ''key_entered'' (Fn 7) s_shadowed) = Some HasOwnProperty_not_a_function \<and>
   callbacks (snd (on ''key_entered'' (Fn 7) s_shadowed)) ''key_entered'' = [7] \<and>
   new_trace s_shadowed (snd (on ''key_entered'' (Fn 7) s_shadowed)) = []"
  by (simp add: on_key_entered new_trace_def) (simp add: s_shadowed_eq)

subsection \<open>Values that do not decode\<close>

text \<open>
  Claim C9. An add or change notification whose raw value does not decode to a location
  leaves the whole state as it is (the location table, the ranges, the ready state) and,
  the trace being part of the state, fires no event.
\<close>

theorem undecodable_value_is_ignored:
  assumes "decodeGeofireObject env val = None"
  shows "childAddedCallback env name val s = (None, s) \<and>
         childChangedCallback env name val s = (None, s)"
  using assms by (simp add: childAddedCallback_def childChangedCallback_def)

theorem undecodable_value_is_ignored_witness:
  "decodeGeofireObject env_ex None = None \<and>
   childAddedCallback env_ex ''k1'' None s_tracked = (None, s_tracked) \<and>
   childChangedCallback env_ex ''k1'' None s_tracked = (None, s_tracked)"
proof -
  have d: "decodeGeofireObject env_ex None = None" by (simp add: env_ex_def)
  show ?thesis using d undecodable_value_is_ignored [OF d, of "''k1''" s_tracked] by simp
qed

subsection \<open>The coverage check\<close>

lemma geohashInSomeQuery_loop_refines:
  assumes "list_all (\<lambda>queryStr. case stringToQuery queryStr of Inl e \<Rightarrow> False | Inr query \<Rightarrow> True) keys"
  shows "geohashInSomeQuery_loop toNum g keys = Inr (list_ex (range_holds toNum g) keys)"
  using assms
proof (induction keys)
  case Nil
  show ?case by simp
next
  case (Cons k keys)
  then obtain q where q: "stringToQuery k = Inr q"
    by (cases "stringToQuery k") auto
  with Cons show ?case by (auto simp: range_holds_def)
qed

lemma list_all_keys: "list_all (\<lambda>(k, v). P k) al = list_all P (map fst al)"
  by (induction al) auto

lemma list_ex_keys: "list_ex (\<lambda>(k, v). P k) al = list_ex P (map fst al)"
  by (induction al) auto

lemma geohashInSomeQuery_registry:
  assumes "registry_parses s"
  shows "geohashInSomeQuery env g s = Inr (registry_covers env s g)"
  using assms geohashInSomeQuery_loop_refines [of "map fst (currentGeohashesQueried s)" "toNumber env" g]
  by (simp add: geohashInSomeQuery_def registry_covers_def registry_parses_def list_all_keys
      list_ex_keys)

subsection \<open>Resolving a removal\<close>

text \<open>
  Claim C3, as the code has it. When the point read that follows a removal notification
  completes, the geohash of the value read (\<^verbatim>\<open>null\<close> when nothing decodes) is looked up in
  the registry, whose keys split into two bounds. If some registered range covers it,
  nothing changes. If none does, the row of the key is deleted, and if the row was in the
  query \<^verbatim>\<open>key_exited\<close> fires: with \<^verbatim>\<open>null\<close> location and distance when the read found no
  location, and with the location read and its distance from the center when it found
  one. A key that was not in the query fires nothing. A range covers a geohash that is
  between its bounds, in the order of strings. An absent value is covered by no range
  that has a bound which is not a numeral; a range with two numeral bounds around 0 covers
  it, \<^verbatim>\<open>null\<close> being 0 in a comparison.
\<close>

theorem removal_resolution:
  assumes "registry_parses s"
  shows "childRemovedCallback_value env key val s =
          (None,
           if registry_covers env s
                (case decodeGeofireObject env val of
                   Some l \<Rightarrow> Some (encodeGeohash env l None) | None \<Rightarrow> None)
           then s
           else emit
                  (if (case locations_get s key of None \<Rightarrow> False | Some d \<Rightarrow> isInQuery d) then
                     (case decodeGeofireObject env val of
                        None \<Rightarrow>
                          Fired ''key_exited'' key None None #
                          map (\<lambda>f. Invoked ''key_exited'' f key None None) (callbacks s ''key_exited'')
                      | Some l \<Rightarrow>
                          Fired ''key_exited'' key (Some l) (Some (distance env l (center s))) #
                          map (\<lambda>f. Invoked ''key_exited'' f key (Some l) (Some (distance env l (center s))))
                            (callbacks s ''key_exited''))
                   else [])
                  (s\<lparr>locations := AList.delete key (locations s)\<rparr>)) \<and>
         (registry_covers env s None \<longleftrightarrow>
            list_ex (\<lambda>(queryStr, active).
                       case stringToQuery queryStr of
                         Inl e \<Rightarrow> False
                       | Inr query \<Rightarrow>
                           (case (toNumber env (fst query), toNumber env (snd query)) of
                              (Some a, Some b) \<Rightarrow> a \<le> 0 \<and> 0 \<le> b
                            | _ \<Rightarrow> False))
              (currentGeohashesQueried s)) \<and>
         (\<forall>g. registry_covers env s (Some g) \<longleftrightarrow>
            list_ex (\<lambda>(queryStr, active).
                       case stringToQuery queryStr of
                         Inl e \<Rightarrow> False
                       | Inr query \<Rightarrow> fst query \<le> g \<and> g \<le> snd query)
              (currentGeohashesQueried s))"
proof (intro conjI allI)
  let ?g = "case decodeGeofireObject env val of
              Some l \<Rightarrow> Some (encodeGeohash env l None) | None \<Rightarrow> None"
  have c: "geohashInSomeQuery env ?g s = Inr (registry_covers env s ?g)"
    by (rule geohashInSomeQuery_registry [OF assms])
  show "childRemovedCallback_value env key val s =
          (None,
           if registry_covers env s ?g then s
           else emit
                  (if (case locations_get s key of None \<Rightarrow> False | Some d \<Rightarrow> isInQuery d) then
                     (case decodeGeofireObject env val of
                        None \<Rightarrow>
                          Fired ''key_exited'' key None None #
                          map (\<lambda>f. Invoked ''key_exited'' f key None None) (callbacks s ''key_exited'')
                      | Some l \<Rightarrow>
                          Fired ''key_exited'' key (Some l) (Some (distance env l (center s))) #
                          map (\<lambda>f. Invoked ''key_exited'' f key (Some l) (Some (distance env l (center s))))
                            (callbacks s ''key_exited''))
                   else [])
                  (s\<lparr>locations := AList.delete key (locations s)\<rparr>))"
    using c
    by (cases "registry_covers env s ?g"; cases "decodeGeofireObject env val")
       (simp_all add: childRemovedCallback_value_def fireCallbacksForKey_def Let_def)
  show "registry_covers env s None \<longleftrightarrow>
            list_ex (\<lambda>(queryStr, active).
                       case stringToQuery queryStr of
                         Inl e \<Rightarrow> False
                       | Inr query \<Rightarrow>
                           (case (toNumber env (fst query), toNumber env (snd query)) of
                              (Some a, Some b) \<Rightarrow> a \<le> 0 \<and> 0 \<le> b
                            | _ \<Rightarrow> False))
              (currentGeohashesQueried s)"
  proof -
    have "(\<lambda>(queryStr, active). range_holds (toNumber env) None queryStr) =
          (\<lambda>(queryStr :: string, active :: bool).
                       case stringToQuery queryStr of
                         Inl e \<Rightarrow> False
                       | Inr query \<Rightarrow>
                           (case (toNumber env (fst query), toNumber env (snd query)) of
                              (Some a, Some b) \<Rightarrow> a \<le> 0 \<and> 0 \<le> b
                            | _ \<Rightarrow> False))"
      by (auto simp: fun_eq_iff range_holds_def js_ge_def js_le_def split: sum.splits option.splits)
    then show ?thesis by (simp add: registry_covers_def)
  qed
  fix g
  have "(\<lambda>(queryStr, active). range_holds (toNumber env) (Some g) queryStr) =
        (\<lambda>(queryStr :: string, active :: bool).
                     case stringToQuery queryStr of
                       Inl e \<Rightarrow> False
                     | Inr query \<Rightarrow> fst query \<le> g \<and> g \<le> snd query)"
    by (auto simp: fun_eq_iff range_holds_def js_ge_def js_le_def split: sum.splits)
  then show "registry_covers env s (Some g) \<longleftrightarrow>
            list_ex (\<lambda>(queryStr, active).
                       case stringToQuery queryStr of
                         Inl e \<Rightarrow> False
                       | Inr query \<Rightarrow> fst query \<le> g \<and> g \<le> snd query)
              (currentGeohashesQueried s)"
    by (simp add: registry_covers_def)
qed

theorem removal_resolution_witness:
  "registry_parses s_tracked \<and> registry_parses s_numerals \<and>
   \<not> registry_covers env_ex s_tracked None \<and>
   new_trace s_tracked (snd (childRemovedCallback_value env_ex ''k1'' None s_tracked)) =
     [Fired ''key_exited'' ''k1'' None None, Invoked ''key_exited'' 3 ''k1'' None None] \<and>
   map fst (locations (snd (childRemovedCallback_value env_ex ''k1'' None s_tracked))) = [''k2''] \<and>
   registry_covers env_ex s_tracked (Some ''a'') \<and>
   childRemovedCallback_value env_ex ''k1'' (Some (2, 0)) s_tracked = (None, s_tracked) \<and>
   registry_covers env_ex s_numerals None \<and>
   childRemovedCallback_value env_ex ''k1'' None s_numerals = (None, s_numerals)"
proof -
  have p: "registry_parses s_tracked" "registry_parses s_numerals"
    by (simp_all add: registry_parses_def s_numerals_def s_tracked_def stringToQuery_def)
  have e: "decodeGeofireObject env_ex v = v" "encodeGeohash env_ex (2, 0) None = ''a''" for v
    by (simp_all add: env_ex_def)
  have n: "toNumber env_ex ''a'' = None" "toNumber env_ex ''0'' = Some 0"
    "toNumber env_ex ''8'' = Some 8"
    by (simp_all add: env_ex_def is_digit_def digits_value_def)
  have c: "\<not> registry_covers env_ex s_tracked None" "registry_covers env_ex s_tracked (Some ''a'')"
    "registry_covers env_ex s_numerals None"
    by (simp_all add: registry_covers_def range_holds_def stringToQuery_def js_ge_def js_le_def n
        s_numerals_def s_tracked_def)
  have l: "locations_get s_tracked ''k1'' =
      Some \<lparr>location = (1, 0), distanceFromCenter = 1, isInQuery = True, geohash = ''a''\<rparr>"
    by (simp add: locations_get_def s_tracked_def)
  show ?thesis
    using p c
      removal_resolution [OF p(1), of env_ex "''k1''" None]
      removal_resolution [OF p(1), of env_ex "''k1''" "Some (2, 0)"]
      removal_resolution [OF p(2), of env_ex "''k1''" None]
    by (simp add: e l new_trace_def) (simp add: s_tracked_def)
qed

text \<open>
  The claim as it was written gives \<^verbatim>\<open>null\<close> arguments whenever the location is covered by
  no range. Here the key \<open>k1\<close> is in the query, the read finds it at (20, 0), which no
  registered range covers, and the callback gets that location and the distance 20.
\<close>

theorem removal_resolution_counterexample:
  "map_of (locations s_tracked) ''k1'' \<noteq> None \<and>
   isInQuery (the (map_of (locations s_tracked) ''k1'')) \<and>
   geohashInSomeQuery env_ex (Some (encodeGeohash env_ex (20, 0) None)) s_tracked = Inr False \<and>
   new_trace s_tracked (snd (childRemovedCallback_value env_ex ''k1'' (Some (20, 0)) s_tracked)) =
     [Fired ''key_exited'' ''k1'' (Some (20, 0)) (Some 20),
      Invoked ''key_exited'' 3 ''k1'' (Some (20, 0)) (Some 20)]"
  by (simp add: new_trace_def childRemovedCallback_value_def fireCallbacksForKey_def
      locations_get_def env_ex_def geohashInSomeQuery_def s_tracked_def stringToQuery_def
      js_ge_def js_le_def Let_def)

subsection \<open>The cleanup pass\<close>

lemma cleanUp_queries_frame:
  "locations (snd (cleanUp_queries keys s)) = locations s \<and>
   locations_proto (snd (cleanUp_queries keys s)) = locations_proto s \<and>
   callbacks (snd (cleanUp_queries keys s)) = callbacks s \<and>
   center (snd (cleanUp_queries keys s)) = center s \<and>
   radius (snd (cleanUp_queries keys s)) = radius s \<and>
   valueEventFired (snd (cleanUp_queries keys s)) = valueEventFired s \<and>
   geohashesToQuery (snd (cleanUp_queries keys s)) = geohashesToQuery s \<and>
   numGeohashesToQueryProcessed (snd (cleanUp_queries keys s)) = numGeohashesToQueryProcessed s \<and>
   geohashCleanupScheduled (snd (cleanUp_queries keys s)) = geohashCleanupScheduled s \<and>
   cleanUpCurrentGeohashesQueriedTimeout (snd (cleanUp_queries keys s)) = cleanUpCurrentGeohashesQueriedTimeout s"
  by (induction keys arbitrary: s) (simp_all add: geoQueryOff_def split: sum.splits)

lemma delete_filter: "AList.delete key al = filter (\<lambda>(k, v). k \<noteq> key) al"
  by (induction al) auto

lemma cleanUp_queries_registry:
  assumes "distinct (map fst (currentGeohashesQueried s))" "fst (cleanUp_queries keys s) = None"
  shows "currentGeohashesQueried (snd (cleanUp_queries keys s)) =
           filter (\<lambda>(k, v). k \<notin> set keys \<or> v) (currentGeohashesQueried s)"
  using assms
proof (induction keys arbitrary: s)
  case Nil
  show ?case by simp
next
  case (Cons key keys)
  let ?r = "currentGeohashesQueried s"
  have in_r: "(k, v) \<in> set ?r \<longleftrightarrow> map_of ?r k = Some v" for k v
    using Cons.prems(1) by auto
  show ?case
  proof (cases "map_of ?r key = Some False")
    case False
    then have "filter (\<lambda>(k, v). k \<notin> set (key # keys) \<or> v) ?r = filter (\<lambda>(k, v). k \<notin> set keys \<or> v) ?r"
      by (intro filter_cong refl) (auto simp: in_r)
    with False Cons show ?thesis by simp
  next
    case True
    then obtain q where q: "stringToQuery key = Inr q"
      using Cons.prems(2) by (cases "stringToQuery key") auto
    let ?s1 = "(geoQueryOff q s)\<lparr>currentGeohashesQueried := AList.delete key ?r\<rparr>"
    have d1: "distinct (map fst (currentGeohashesQueried ?s1))"
      using Cons.prems(1) by (simp add: distinct_delete)
    have e1: "fst (cleanUp_queries keys ?s1) = None"
      using Cons.prems(2) True q by simp
    have "filter (\<lambda>(k, v). k \<notin> set keys \<or> v) (filter (\<lambda>(k, v). k \<noteq> key) ?r) =
          filter (\<lambda>(k, v). k \<notin> set (key # keys) \<or> v) ?r"
      unfolding filter_filter using True by (intro filter_cong refl) (auto simp: in_r)
    with Cons.IH [OF d1 e1] True q show ?thesis
      by (simp add: delete_filter)
  qed
qed

lemma cleanUp_locations_frame:
  "currentGeohashesQueried (snd (cleanUp_locations env keys s)) = currentGeohashesQueried s \<and>
   locations_proto (snd (cleanUp_locations env keys s)) = locations_proto s \<and>
   callbacks (snd (cleanUp_locations env keys s)) = callbacks s \<and>
   center (snd (cleanUp_locations env keys s)) = center s \<and>
   radius (snd (cleanUp_locations env keys s)) = radius s \<and>
   trace (snd (cleanUp_locations env keys s)) = trace s \<and>
   valueEventFired (snd (cleanUp_locations env keys s)) = valueEventFired s \<and>
   geohashesToQuery (snd (cleanUp_locations env keys s)) = geohashesToQuery s \<and>
   numGeohashesToQueryProcessed (snd (cleanUp_locations env keys s)) = numGeohashesToQueryProcessed s \<and>
   geohashCleanupScheduled (snd (cleanUp_locations env keys s)) = geohashCleanupScheduled s \<and>
   cleanUpCurrentGeohashesQueriedTimeout (snd (cleanUp_locations env keys s)) = cleanUpCurrentGeohashesQueriedTimeout s"
proof (induction keys arbitrary: s)
  case Nil
  show ?case by simp
next
  case (Cons key keys)
  show ?case
    by (simp add: Cons.IH split: option.splits sum.splits bool.splits)
qed

lemma cleanUp_queries_no_error:
  "list_all (\<lambda>k. case stringToQuery k of Inl e \<Rightarrow> False | Inr q \<Rightarrow> True) keys \<Longrightarrow>
   fst (cleanUp_queries keys s) = None"
proof (induction keys arbitrary: s)
  case Nil
  show ?case by simp
next
  case (Cons key keys)
  then obtain q where "stringToQuery key = Inr q" by (cases "stringToQuery key") auto
  with Cons show ?case by simp
qed

lemma cleanUp_finish_frame:
  "locations (cleanUp_finish s) = locations s \<and>
   locations_proto (cleanUp_finish s) = locations_proto s \<and>
   currentGeohashesQueried (cleanUp_finish s) = currentGeohashesQueried s \<and>
   callbacks (cleanUp_finish s) = callbacks s \<and>
   center (cleanUp_finish s) = center s \<and>
   radius (cleanUp_finish s) = radius s \<and>
   valueEventFired (cleanUp_finish s) = valueEventFired s \<and>
   geohashesToQuery (cleanUp_finish s) = geohashesToQuery s \<and>
   numGeohashesToQueryProcessed (cleanUp_finish s) = numGeohashesToQueryProcessed s \<and>
   trace (cleanUp_finish s) =
     trace s @ (if cleanUpCurrentGeohashesQueriedTimeout s \<noteq> None then [Clear_timeout] else [])"
  by (simp add: cleanUp_finish_def Let_def)

lemma cleanUp_registry:
  "currentGeohashesQueried (snd (cleanUpCurrentGeohashesQueried env s)) =
   currentGeohashesQueried (snd (cleanUp_queries (map fst (currentGeohashesQueried s)) s))"
proof -
  obtain e1 s1 where c1: "cleanUp_queries (map fst (currentGeohashesQueried s)) s = (e1, s1)"
    by (cases "cleanUp_queries (map fst (currentGeohashesQueried s)) s")
  obtain e2 s2 where c2: "cleanUp_locations env (for_in_keys (locations s1)) s1 = (e2, s2)"
    by (cases "cleanUp_locations env (for_in_keys (locations s1)) s1")
  have "currentGeohashesQueried s2 = currentGeohashesQueried s1"
    using cleanUp_locations_frame [of env "for_in_keys (locations s1)" s1] c2 by simp
  then show ?thesis
    by (cases e1; cases e2) (simp_all add: cleanUpCurrentGeohashesQueried_def c1 c2 cleanUp_finish_frame)
qed

text \<open>
  Claim C10. \<^verbatim>\<open>_geohashInSomeQuery\<close> looks at the keys of the registry and never at the
  flags: it answers true exactly when the geohash is in the range of some registered key,
  active or marked for teardown. A cleanup pass removes exactly the keys whose flag is
  false, and from then on the check answers true exactly when the geohash is in the range
  of a key that was active: a geohash that only ranges marked for teardown hold is
  covered until the pass and no longer covered after it.
\<close>

theorem inactive_range_still_covers:
  assumes "registry_parses s" and "distinct (map fst (currentGeohashesQueried s))"
  shows "geohashInSomeQuery env (Some g) s =
           Inr (list_ex (\<lambda>(queryStr, active).
                           case stringToQuery queryStr of
                             Inl e \<Rightarrow> False
                           | Inr query \<Rightarrow> fst query \<le> g \<and> g \<le> snd query)
                  (currentGeohashesQueried s)) \<and>
         currentGeohashesQueried (snd (cleanUpCurrentGeohashesQueried env s)) =
           filter snd (currentGeohashesQueried s) \<and>
         geohashInSomeQuery env (Some g) (snd (cleanUpCurrentGeohashesQueried env s)) =
           Inr (list_ex (\<lambda>(queryStr, active).
                           active \<and>
                           (case stringToQuery queryStr of
                              Inl e \<Rightarrow> False
                            | Inr query \<Rightarrow> fst query \<le> g \<and> g \<le> snd query))
                  (currentGeohashesQueried s))"
proof (intro conjI)
  let ?s' = "snd (cleanUpCurrentGeohashesQueried env s)"
  let ?in = "\<lambda>queryStr. case stringToQuery queryStr of
                           Inl e \<Rightarrow> False
                         | Inr query \<Rightarrow> fst query \<le> g \<and> g \<le> snd query"
  have h: "range_holds (toNumber env) (Some g) = ?in"
    by (simp add: fun_eq_iff range_holds_def js_ge_def js_le_def split: sum.splits)
  show "geohashInSomeQuery env (Some g) s =
           Inr (list_ex (\<lambda>(queryStr, active). ?in queryStr) (currentGeohashesQueried s))"
    using geohashInSomeQuery_registry [OF assms(1), of env "Some g"]
    by (simp add: registry_covers_def h)
  have p: "list_all (\<lambda>k. case stringToQuery k of Inl e \<Rightarrow> False | Inr q \<Rightarrow> True)
             (map fst (currentGeohashesQueried s))"
    using assms(1) by (simp add: registry_parses_def list_all_keys)
  have "filter (\<lambda>(k, v). k \<notin> set (map fst (currentGeohashesQueried s)) \<or> v) (currentGeohashesQueried s) =
        filter snd (currentGeohashesQueried s)"
    by (intro filter_cong refl) force
  then show r: "currentGeohashesQueried ?s' = filter snd (currentGeohashesQueried s)"
    using cleanUp_queries_registry [OF assms(2) cleanUp_queries_no_error [OF p]]
    by (simp add: cleanUp_registry)
  have "registry_parses ?s'"
    using assms(1) unfolding registry_parses_def r by (simp add: list_all_iff)
  from geohashInSomeQuery_registry [OF this, of env "Some g"]
  have "geohashInSomeQuery env (Some g) ?s' =
          Inr (list_ex (\<lambda>(queryStr, active). ?in queryStr) (filter snd (currentGeohashesQueried s)))"
    by (simp add: registry_covers_def r h)
  moreover have "list_ex (\<lambda>(queryStr, active). ?in queryStr) (filter snd al) =
                 list_ex (\<lambda>(queryStr, active). active \<and> ?in queryStr) al"
    for al :: "(string \<times> bool) list"
    by (induction al) auto
  ultimately show "geohashInSomeQuery env (Some g) ?s' =
           Inr (list_ex (\<lambda>(queryStr, active). active \<and> ?in queryStr) (currentGeohashesQueried s))"
    by simp
qed

theorem inactive_range_still_covers_witness:
  "registry_parses s_moved \<and> distinct (map fst (currentGeohashesQueried s_moved)) \<and>
   currentGeohashesQueried s_moved = [(''a:a~'', False), (''b:b~'', True)] \<and>
   geohashInSomeQuery env_ex (Some ''a'') s_moved = Inr True \<and>
   currentGeohashesQueried (snd (cleanUpCurrentGeohashesQueried env_ex s_moved)) = [(''b:b~'', True)] \<and>
   geohashInSomeQuery env_ex (Some ''a'') (snd (cleanUpCurrentGeohashesQueried env_ex s_moved)) = Inr False \<and>
   geohashInSomeQuery env_ex (Some ''b'') (snd (cleanUpCurrentGeohashesQueried env_ex s_moved)) = Inr True \<and>
   geohashInSomeQuery env_ex (Some ''c'') s_moved = Inr False"
proof -
  have 1: "registry_parses s_moved" by (simp add: registry_parses_def s_moved_def stringToQuery_def)
  have 2: "distinct (map fst (currentGeohashesQueried s_moved))" by (simp add: s_moved_def)
  have 3: "currentGeohashesQueried s_moved = [(''a:a~'', False), (''b:b~'', True)]"
    by (simp add: s_moved_def)
  show ?thesis
    using 1 2 3
      inactive_range_still_covers [OF 1 2, of env_ex "''a''"]
      inactive_range_still_covers [OF 1 2, of env_ex "''b''"]
      inactive_range_still_covers [OF 1 2, of env_ex "''c''"]
    by (simp add: stringToQuery_def)
qed

subsection \<open>Recomputing the coverage\<close>

lemma update_present_keys: "k \<in> fst ` set al \<Longrightarrow> map fst (AList.update k v al) = map fst al"
  by (simp add: update_keys)

lemma listen_mark_frame:
  "locations (listen_mark keys s) = locations s \<and>
   callbacks (listen_mark keys s) = callbacks s \<and>
   center (listen_mark keys s) = center s \<and>
   radius (listen_mark keys s) = radius s \<and>
   trace (listen_mark keys s) = trace s \<and>
   valueEventFired (listen_mark keys s) = valueEventFired s \<and>
   numGeohashesToQueryProcessed (listen_mark keys s) = numGeohashesToQueryProcessed s \<and>
   geohashCleanupScheduled (listen_mark keys s) = geohashCleanupScheduled s \<and>
   cleanUpCurrentGeohashesQueriedTimeout (listen_mark keys s) = cleanUpCurrentGeohashesQueriedTimeout s"
  by (induction keys arbitrary: s) (simp_all split: option.splits)

lemma listen_mark_keys:
  "set keys \<subseteq> fst ` set (currentGeohashesQueried s) \<Longrightarrow>
   map fst (currentGeohashesQueried (listen_mark keys s)) = map fst (currentGeohashesQueried s)"
proof (induction keys arbitrary: s)
  case Nil
  show ?case by simp
next
  case (Cons key keys)
  have k: "map fst (AList.update key v (currentGeohashesQueried s)) = map fst (currentGeohashesQueried s)" for v
    using Cons.prems by (simp add: update_present_keys)
  have sub: "set keys \<subseteq> fst ` set (currentGeohashesQueried s1)"
    if "currentGeohashesQueried s1 = AList.update key v (currentGeohashesQueried s)" for v s1
  proof -
    have "fst ` set (currentGeohashesQueried s1) = set (map fst (AList.update key v (currentGeohashesQueried s)))"
      using that by simp
    also have "\<dots> = fst ` set (currentGeohashesQueried s)"
      unfolding k by simp
    finally show ?thesis using Cons.prems by simp
  qed
  show ?case
  proof (cases "indexOf (geohashesToQuery s) key")
    case None
    let ?s1 = "s\<lparr>currentGeohashesQueried := AList.update key False (currentGeohashesQueried s)\<rparr>"
    have "map fst (currentGeohashesQueried (listen_mark keys ?s1)) = map fst (currentGeohashesQueried ?s1)"
      by (rule Cons.IH, rule sub [of _ False]) simp
    with None k show ?thesis by simp
  next
    case (Some i)
    let ?s1 = "s\<lparr>currentGeohashesQueried := AList.update key True (currentGeohashesQueried s),
                 geohashesToQuery := splice1 i (geohashesToQuery s)\<rparr>"
    have "map fst (currentGeohashesQueried (listen_mark keys ?s1)) = map fst (currentGeohashesQueried ?s1)"
      by (rule Cons.IH, rule sub [of _ True]) simp
    with Some k show ?thesis by simp
  qed
qed

lemma listen_attach_frame:
  "locations (snd (listen_attach keys s)) = locations s \<and>
   callbacks (snd (listen_attach keys s)) = callbacks s \<and>
   center (snd (listen_attach keys s)) = center s \<and>
   radius (snd (listen_attach keys s)) = radius s \<and>
   valueEventFired (snd (listen_attach keys s)) = valueEventFired s \<and>
   geohashesToQuery (snd (listen_attach keys s)) = geohashesToQuery s \<and>
   numGeohashesToQueryProcessed (snd (listen_attach keys s)) = numGeohashesToQueryProcessed s \<and>
   geohashCleanupScheduled (snd (listen_attach keys s)) = geohashCleanupScheduled s \<and>
   cleanUpCurrentGeohashesQueriedTimeout (snd (listen_attach keys s)) = cleanUpCurrentGeohashesQueriedTimeout s"
  by (induction keys arbitrary: s) (simp_all split: sum.splits)

lemma listen_attach_trace:
  "\<exists>es. trace (snd (listen_attach keys s)) = trace s @ es \<and> list_all is_store_effect es"
proof (induction keys arbitrary: s)
  case Nil
  show ?case by simp
next
  case (Cons key keys)
  show ?case
  proof (cases "stringToQuery key")
    case (Inl e)
    then show ?thesis by simp
  next
    case (Inr q)
    let ?s1 = "emit [Store_on (fst q) (snd q), Store_once_value (fst q) (snd q)]
               (s\<lparr>currentGeohashesQueried := AList.update key True (currentGeohashesQueried s)\<rparr>)"
    from Cons.IH [of ?s1] obtain es where
      "trace (snd (listen_attach keys ?s1)) = trace ?s1 @ es" "list_all is_store_effect es" by auto
    with Inr show ?thesis by simp
  qed
qed

lemma update_fresh: "k \<notin> fst ` set al \<Longrightarrow> AList.update k v al = al @ [(k, v)]"
  by (induction al) auto

lemma listen_attach_fresh:
  assumes "\<forall>k \<in> set keys. \<exists>q. stringToQuery k = Inr q" "distinct keys"
    "set keys \<inter> fst ` set (currentGeohashesQueried s) = {}"
  shows "fst (listen_attach keys s) = None \<and>
     currentGeohashesQueried (snd (listen_attach keys s)) =
       currentGeohashesQueried s @ map (\<lambda>k. (k, True)) keys"
  using assms
proof (induction keys arbitrary: s)
  case Nil
  show ?case by simp
next
  case (Cons key keys)
  then obtain q where q: "stringToQuery key = Inr q" by auto
  let ?s1 = "emit [Store_on (fst q) (snd q), Store_once_value (fst q) (snd q)]
               (s\<lparr>currentGeohashesQueried := AList.update key True (currentGeohashesQueried s)\<rparr>)"
  have u: "AList.update key True (currentGeohashesQueried s) = currentGeohashesQueried s @ [(key, True)]"
    using Cons.prems(3) by (simp add: update_fresh)
  have "fst (listen_attach keys ?s1) = None \<and>
     currentGeohashesQueried (snd (listen_attach keys ?s1)) =
       currentGeohashesQueried ?s1 @ map (\<lambda>k. (k, True)) keys"
    using Cons.prems by (intro Cons.IH) (auto simp: u)
  with q u show ?case by simp
qed

lemma queries26:
  "filter_duplicates (map queryToString (geohashQueries env26 c r)) = keys26"
  by (simp add: env26_def env_ex_def queryToString_def filter_duplicates_def keys26_def
      upt_rec [of _ "numeral _"])

text \<open>
  Claim C7, as the code has it. \<^verbatim>\<open>_listenForNewGeohashes\<close> compares the number of
  registered ranges with 25 after it has marked the ranges already registered and before
  it registers the new ones: a cleanup is scheduled (the flag set, a timer of 10 set)
  exactly when none was pending and more than 25 ranges were registered when the
  recomputation began. The ranges that the same recomputation adds do not count.
\<close>

theorem cleanup_scheduled_by_count_before_attach:
  "geohashCleanupScheduled (snd (listenForNewGeohashes env s)) =
     (geohashCleanupScheduled s \<or> 25 < length (currentGeohashesQueried s)) \<and>
   cleanUpCurrentGeohashesQueriedTimeout (snd (listenForNewGeohashes env s)) =
     (if \<not> geohashCleanupScheduled s \<and> 25 < length (currentGeohashesQueried s) then Some 10
      else cleanUpCurrentGeohashesQueriedTimeout s) \<and>
   filter is_timer (new_trace s (snd (listenForNewGeohashes env s))) =
     (if \<not> geohashCleanupScheduled s \<and> 25 < length (currentGeohashesQueried s) then [Set_timeout 10]
      else [])"
proof -
  define s2 where "s2 = s\<lparr>geohashesToQuery := filter_duplicates
       (map queryToString (geohashQueries env (center s) (radius s * 1000)))\<rparr>"
  define s3 where "s3 = listen_mark (map fst (currentGeohashesQueried s2)) s2"
  define s5 where "s5 = (listen_schedule s3)\<lparr>numGeohashesToQueryProcessed := 0\<rparr>"
  have l: "listenForNewGeohashes env s = listen_attach (geohashesToQuery s5) s5"
    by (simp add: listenForNewGeohashes_def s2_def s3_def s5_def Let_def)
  have len: "length (currentGeohashesQueried s3) = length (currentGeohashesQueried s)"
  proof -
    have "map fst (currentGeohashesQueried s3) = map fst (currentGeohashesQueried s2)"
      unfolding s3_def by (rule listen_mark_keys) simp
    then have "length (map fst (currentGeohashesQueried s3)) = length (map fst (currentGeohashesQueried s2))"
      by simp
    then show ?thesis by (simp add: s2_def)
  qed
  have f3: "geohashCleanupScheduled s3 = geohashCleanupScheduled s"
    "cleanUpCurrentGeohashesQueriedTimeout s3 = cleanUpCurrentGeohashesQueriedTimeout s"
    "trace s3 = trace s"
    by (simp_all add: s3_def listen_mark_frame s2_def)
  obtain es where es: "trace (snd (listen_attach (geohashesToQuery s5) s5)) = trace s5 @ es"
     "list_all is_store_effect es"
    using listen_attach_trace by blast
  have nt: "filter is_timer es = []"
    using es(2) by (induction es) (auto elim: is_store_effect.elims)
  have f5: "geohashCleanupScheduled s5 = (geohashCleanupScheduled s \<or> 25 < length (currentGeohashesQueried s))"
    "cleanUpCurrentGeohashesQueriedTimeout s5 =
       (if \<not> geohashCleanupScheduled s \<and> 25 < length (currentGeohashesQueried s) then Some 10
        else cleanUpCurrentGeohashesQueriedTimeout s)"
    "trace s5 = trace s @
       (if \<not> geohashCleanupScheduled s \<and> 25 < length (currentGeohashesQueried s) then [Set_timeout 10]
        else [])"
    by (auto simp: s5_def listen_schedule_def f3 len)
  show ?thesis
    unfolding l
    by (simp add: listen_attach_frame es(1) nt new_trace_def f5)
qed

text \<open>
  A new query whose circle needs 26 ranges has 26 registered ranges after the
  recomputation and no cleanup scheduled.
\<close>

theorem cleanup_scheduled_by_count_before_attach_counterexample:
  "length (currentGeohashesQueried (snd (GeoQuery env26 crit_ex))) = 26 \<and>
   geohashCleanupScheduled (snd (GeoQuery env26 crit_ex)) = False \<and>
   cleanUpCurrentGeohashesQueriedTimeout (snd (GeoQuery env26 crit_ex)) = None"
proof -
  define s0 where "s0 = \<lparr>callbacks = (\<lambda>eventType. []), valueEventFired = False,
     geohashesToQuery = keys26,
     numGeohashesToQueryProcessed = 0, locations = [], locations_proto = None,
     currentGeohashesQueried = [],
     geohashCleanupScheduled = False, cleanUpCurrentGeohashesQueriedTimeout = None,
     center = (0, 0), radius = 5, trace = [Set_interval 10000]\<rparr>"
  have v: "validateCriteria env26 c b" for c b by (simp add: env26_def env_ex_def)
  have g: "GeoQuery env26 crit_ex = listen_attach keys26 s0"
    unfolding GeoQuery_def listenForNewGeohashes_def Let_def
    by (simp add: v crit_ex_def queries26 listen_schedule_def s0_def del: listen_attach.simps)
  have a: "fst (listen_attach keys26 s0) = None \<and>
     currentGeohashesQueried (snd (listen_attach keys26 s0)) =
       currentGeohashesQueried s0 @ map (\<lambda>k. (k, True)) keys26"
    by (rule listen_attach_fresh) (simp_all add: s0_def stringToQuery_def keys26_def)
  have l: "length keys26 = 26" by (simp add: keys26_def)
  show ?thesis
    unfolding g using a l by (simp add: listen_attach_frame) (simp add: s0_def)
qed

subsection \<open>Events and the cancelled query\<close>

lemma events_emit [simp]: "events (emit es s) = events s @ filter is_event es"
  by (simp add: events_def)

lemma events_update [simp]:
  "events (s\<lparr>locations := l\<rparr>) = events s"
  "events (s\<lparr>locations_proto := p\<rparr>) = events s"
  "events (s\<lparr>currentGeohashesQueried := r\<rparr>) = events s"
  "events (s\<lparr>callbacks := c\<rparr>) = events s"
  "events (s\<lparr>center := ce\<rparr>) = events s"
  "events (s\<lparr>radius := ra\<rparr>) = events s"
  "events (s\<lparr>valueEventFired := v\<rparr>) = events s"
  "events (s\<lparr>geohashesToQuery := g\<rparr>) = events s"
  "events (s\<lparr>numGeohashesToQueryProcessed := n\<rparr>) = events s"
  "events (s\<lparr>geohashCleanupScheduled := b\<rparr>) = events s"
  "events (s\<lparr>cleanUpCurrentGeohashesQueriedTimeout := t\<rparr>) = events s"
  by (simp_all add: events_def)

lemma cleanUp_queries_events: "events (snd (cleanUp_queries keys s)) = events s"
  by (induction keys arbitrary: s) (simp_all add: geoQueryOff_def split: sum.splits)

lemma cleanUp_locations_events: "events (snd (cleanUp_locations env keys s)) = events s"
  by (simp add: events_def cleanUp_locations_frame)

lemma cleanUp_finish_events: "events (cleanUp_finish s) = events s"
  by (simp add: events_def cleanUp_finish_frame)

lemma cleanUp_events: "events (snd (cleanUpCurrentGeohashesQueried env s)) = events s"
proof -
  obtain e1 s1 where c1: "cleanUp_queries (map fst (currentGeohashesQueried s)) s = (e1, s1)"
    by (cases "cleanUp_queries (map fst (currentGeohashesQueried s)) s")
  obtain e2 s2 where c2: "cleanUp_locations env (for_in_keys (locations s1)) s1 = (e2, s2)"
    by (cases "cleanUp_locations env (for_in_keys (locations s1)) s1")
  have "events s1 = events s" using cleanUp_queries_events [of "map fst (currentGeohashesQueried s)" s] c1 by simp
  moreover have "events s2 = events s1" using cleanUp_locations_events [of env "for_in_keys (locations s1)" s1] c2 by simp
  ultimately show ?thesis
    by (cases e1; cases e2) (simp_all add: cleanUpCurrentGeohashesQueried_def c1 c2 cleanUp_finish_events)
qed

lemma cleanUp_callbacks: "callbacks (snd (cleanUpCurrentGeohashesQueried env s)) = callbacks s"
proof -
  obtain e1 s1 where c1: "cleanUp_queries (map fst (currentGeohashesQueried s)) s = (e1, s1)"
    by (cases "cleanUp_queries (map fst (currentGeohashesQueried s)) s")
  obtain e2 s2 where c2: "cleanUp_locations env (for_in_keys (locations s1)) s1 = (e2, s2)"
    by (cases "cleanUp_locations env (for_in_keys (locations s1)) s1")
  have "callbacks s1 = callbacks s" using cleanUp_queries_frame [of "map fst (currentGeohashesQueried s)" s] c1 by simp
  moreover have "callbacks s2 = callbacks s1" using cleanUp_locations_frame [of env "for_in_keys (locations s1)" s1] c2 by simp
  ultimately show ?thesis
    by (cases e1; cases e2) (simp_all add: cleanUpCurrentGeohashesQueried_def c1 c2 cleanUp_finish_frame)
qed

lemma cancel_queries_frame:
  "events (snd (cancel_queries keys s)) = events s \<and>
   callbacks (snd (cancel_queries keys s)) = callbacks s"
  by (induction keys arbitrary: s) (simp_all add: geoQueryOff_def split: sum.splits)

lemma cancel_quiet:
  "events (snd (cancel s)) = events s \<and> callbacks (snd (cancel s)) = (\<lambda>eventType. [])"
proof -
  let ?s1 = "s\<lparr>callbacks := (\<lambda>eventType. [])\<rparr>"
  obtain e2 s2 where c: "cancel_queries (map fst (currentGeohashesQueried ?s1)) ?s1 = (e2, s2)"
    by (cases "cancel_queries (map fst (currentGeohashesQueried ?s1)) ?s1")
  have "events s2 = events s \<and> callbacks s2 = (\<lambda>eventType. [])"
    using cancel_queries_frame [of "map fst (currentGeohashesQueried ?s1)" ?s1] c by simp
  then show ?thesis
    using c by (cases e2) (simp_all add: cancel_def)
qed

lemma fire_deaf:
  "deaf s \<Longrightarrow> filter is_invocation (trace (fireCallbacksForKey et key l d s)) = filter is_invocation (trace s)"
  by (simp add: fireCallbacksForKey_def deaf_def)

lemma step_deaf:
  assumes "deaf s" "store_or_timer i"
  shows "deaf (step env i s) \<and>
         filter is_invocation (trace (step env i s)) = filter is_invocation (trace s)"
proof -
  have inv: "filter is_invocation (trace t) = filter is_invocation (events t)" for t
    by (simp add: events_def) (metis (mono_tags, lifting) filter_cong is_event.simps(1,2,3,4) is_invocation.elims(2))
  have c: "callbacks s = (\<lambda>eventType. [])" using assms(1) by (simp add: deaf_def)
  show ?thesis
  proof (cases i)
    case (Child_added name val)
    then show ?thesis using c
      by (simp add: childAddedCallback_def updateLocation_def locations_put_def
          fireCallbacksForKey_def deaf_def Let_def split: option.splits sum.splits)
  next
    case (Child_changed name val)
    then show ?thesis using c
      by (simp add: childChangedCallback_def updateLocation_def locations_put_def
          fireCallbacksForKey_def deaf_def Let_def split: option.splits sum.splits)
  next
    case (Child_removed name)
    then show ?thesis using c
      by (simp add: childRemovedCallback_def deaf_def split: option.splits sum.splits)
  next
    case (Read_value key val)
    then show ?thesis using c
      by (simp add: childRemovedCallback_value_def fireCallbacksForKey_def deaf_def Let_def
          split: option.splits sum.splits bool.splits)
  next
    case Value_event
    then show ?thesis using c
      by (simp add: checkIfShouldFireReadyEvent_def fireReadyEventCallbacks_def deaf_def Let_def)
  next
    case Timeout_elapsed
    then show ?thesis using c
      by (simp add: inv cleanUp_events cleanUp_callbacks deaf_def)
  next
    case Interval_elapsed
    then show ?thesis using c
      by (simp add: inv cleanUp_events cleanUp_callbacks deaf_def)
  next
    case (Update_criteria c)
    then show ?thesis using assms(2) by simp
  next
    case (On et cb)
    then show ?thesis using assms(2) by simp
  next
    case Cancel
    then show ?thesis using assms(2) by simp
  qed
qed

text \<open>
  Claim C8. After \<^verbatim>\<open>cancel\<close> no callback of any event type is called again, whatever the
  store delivers afterwards (notifications of a range, the completion of a point read that
  was outstanding, a value event) and whichever timer elapses: the callback lists are
  empty and nothing but \<^verbatim>\<open>on\<close> fills them.
\<close>

theorem no_callback_after_cancel:
  assumes "list_all store_or_timer inputs"
  shows "filter is_invocation (trace (run env inputs (snd (cancel s)))) =
         filter is_invocation (trace s)"
proof -
  have inv: "filter is_invocation (trace t) = filter is_invocation (events t)" for t
    by (simp add: events_def) (metis (mono_tags, lifting) filter_cong is_event.simps(1,2,3,4) is_invocation.elims(2))
  have r: "deaf t \<Longrightarrow> list_all store_or_timer is \<Longrightarrow>
      filter is_invocation (trace (run env is t)) = filter is_invocation (trace t)" for t "is"
  proof (induction "is" arbitrary: t)
    case Nil
    show ?case by simp
  next
    case (Cons i "is")
    from Cons.prems have "deaf (step env i t)"
      "filter is_invocation (trace (step env i t)) = filter is_invocation (trace t)"
      using step_deaf [of t i env] by simp_all
    with Cons show ?case by simp
  qed
  have "deaf (snd (cancel s))" by (simp add: deaf_def cancel_quiet)
  then have "filter is_invocation (trace (run env inputs (snd (cancel s)))) =
             filter is_invocation (trace (snd (cancel s)))"
    using assms by (rule r)
  also have "\<dots> = filter is_invocation (trace s)"
    by (simp add: inv cancel_quiet)
  finally show ?thesis .
qed

theorem no_callback_after_cancel_witness:
  "list_all store_or_timer
     [Child_changed ''k1'' (Some (20, 0)), Read_value ''k2'' None, Value_event, Timeout_elapsed] \<and>
   filter is_invocation
     (trace (run env_ex
        [Child_changed ''k1'' (Some (20, 0)), Read_value ''k2'' None, Value_event, Timeout_elapsed]
        (snd (cancel s_tracked)))) = []"
  using no_callback_after_cancel
    [of "[Child_changed ''k1'' (Some (20, 0)), Read_value ''k2'' None, Value_event, Timeout_elapsed]"
        env_ex s_tracked]
  by (simp add: s_tracked_def)

subsection \<open>Changing the criteria\<close>

text \<open>
  Claim C1 on the code. The example query is around (0, 0) with radius 5; the key \<open>k1\<close>
  is in the query, at distance 1. \<^verbatim>\<open>updateCriteria\<close> is called with the radius 0, which
  the validation accepts. The claim has the radius become 0 and \<^verbatim>\<open>key_exited\<close> fire for
  \<open>k1\<close>. In the code 0 is falsy, so \<^verbatim>\<open>newQueryCriteria.radius || _radius\<close> keeps the
  old radius 5: the key \<open>k1\<close> stays in the query and nothing at all is appended to the
  trace.
\<close>

theorem updateCriteria_radius_zero_keeps_radius:
  "validateCriteria env_ex crit_zero False \<and>
   map_of (locations s_tracked) ''k1'' =
     Some \<lparr>location = (1, 0), distanceFromCenter = 1, isInQuery = True, geohash = ''a''\<rparr> \<and>
   fst (updateCriteria env_ex crit_zero s_tracked) = None \<and>
   radius (snd (updateCriteria env_ex crit_zero s_tracked)) = 5 \<and>
   map_of (locations (snd (updateCriteria env_ex crit_zero s_tracked))) ''k1'' =
     Some \<lparr>location = (1, 0), distanceFromCenter = 1, isInQuery = True, geohash = ''a''\<rparr> \<and>
   new_trace s_tracked (snd (updateCriteria env_ex crit_zero s_tracked)) = []"
  by (simp add: updateCriteria_def Let_def new_trace_def s_tracked_def env_ex_def crit_zero_def
      for_in_keys_def array_index_def is_digit_def own_row_def
      listenForNewGeohashes_def filter_duplicates_def queryToString_def listen_schedule_def
      splice1_def)

text \<open>
  Claim C2 on the code. The example query is ready, around (0, 0) with radius 5.
  \<^verbatim>\<open>updateCriteria\<close> with the same center and radius fires no event, as the claim says,
  and resets \<open>valueEventFired\<close>; but it attaches no value listener (nothing is appended to
  the trace), the list of ranges to wait for is empty and the counter starts at 0, so the
  ready event does not fire, and no number of value events delivered afterwards makes it
  fire: the counter is compared with 0 only after it has been incremented.
\<close>

theorem same_criteria_never_ready:
  "center s_tracked = (0, 0) \<and> radius s_tracked = 5 \<and> valueEventFired s_tracked \<and>
   fst (updateCriteria env_ex crit_ex s_tracked) = None \<and>
   new_trace s_tracked (snd (updateCriteria env_ex crit_ex s_tracked)) = [] \<and>
   \<not> valueEventFired (snd (updateCriteria env_ex crit_ex s_tracked)) \<and>
   (\<forall>n. new_trace s_tracked
          (run env_ex (replicate n Value_event) (snd (updateCriteria env_ex crit_ex s_tracked))) = [])"
proof -
  have run_quiet: "trace (run env (replicate n Value_event) s) = trace s"
    if "geohashesToQuery s = []" for env :: "latlon option collaborators" and n s
    using that
  proof (induction n arbitrary: s)
    case 0
    show ?case by simp
  next
    case (Suc n)
    have "geohashesToQuery (checkIfShouldFireReadyEvent s) = [] \<and>
          trace (checkIfShouldFireReadyEvent s) = trace s"
      using Suc.prems by (simp add: checkIfShouldFireReadyEvent_def Let_def)
    with Suc.IH [of "checkIfShouldFireReadyEvent s"] show ?case by simp
  qed
  have u: "updateCriteria env_ex crit_ex s_tracked =
      (None, s_tracked\<lparr>valueEventFired := False, geohashesToQuery := [],
                        numGeohashesToQueryProcessed := 0\<rparr>)"
    by (simp add: updateCriteria_def Let_def s_tracked_def env_ex_def crit_ex_def
      for_in_keys_def array_index_def is_digit_def own_row_def
      listenForNewGeohashes_def filter_duplicates_def queryToString_def listen_schedule_def
      splice1_def)
  show ?thesis
    unfolding u by (simp add: run_quiet new_trace_def) (simp add: s_tracked_def)
qed

subsection \<open>The rows of the location table\<close>

text \<open>
  Claim C5 on the code. The store has reported one location, at distance 1 from the center
  of a query with radius 5, under the key \<^verbatim>\<open>hasOwnProperty\<close>; its row says that it is in
  the query. \<^verbatim>\<open>updateCriteria\<close> is then called with the radius 1/2. It writes the new
  radius, enters the loop that is to recompute every row and throws a \<^verbatim>\<open>TypeError\<close> at
  the first \<^verbatim>\<open>_locations.hasOwnProperty(key)\<close>, which is now the row of that key and not
  a function. The row still says that the key is in the query, at a distance of 1 that is
  not within the radius 1/2.
\<close>

theorem rows_inconsistent_when_hasOwnProperty_is_tracked:
  "rows_consistent s_shadowed \<and>
   fst (updateCriteria env_ex crit_half s_shadowed) = Some HasOwnProperty_not_a_function \<and>
   radius (step env_ex (Update_criteria crit_half) s_shadowed) = 1 / 2 \<and>
   locations (step env_ex (Update_criteria crit_half) s_shadowed) =
     [(''hasOwnProperty'',
       \<lparr>location = (1, 0), distanceFromCenter = 1, isInQuery = True, geohash = ''a''\<rparr>)] \<and>
   new_trace s_shadowed (step env_ex (Update_criteria crit_half) s_shadowed) = [] \<and>
   \<not> rows_consistent
       (run env_ex [Child_added ''hasOwnProperty'' (Some (1, 0)), Update_criteria crit_half]
          (snd (GeoQuery env_ex crit_ex)))"
proof -
  have v: "validateCriteria env_ex c b" for c b by (simp add: env_ex_def)
  have u: "updateCriteria env_ex crit_half s_shadowed =
             (Some HasOwnProperty_not_a_function, s_shadowed\<lparr>radius := 1 / 2\<rparr>)"
    by (simp add: updateCriteria_def v Let_def crit_half_def)
       (simp add: s_shadowed_eq for_in_keys_def array_index_def is_digit_def own_row_def)
  have r: "run env_ex [Child_added ''hasOwnProperty'' (Some (1, 0)), Update_criteria crit_half]
             (snd (GeoQuery env_ex crit_ex)) = s_shadowed\<lparr>radius := 1 / 2\<rparr>"
    using u by (simp add: s_shadowed_def)
  show ?thesis
    unfolding r by (simp add: u new_trace_def) (simp add: s_shadowed_eq rows_consistent_def)
qed

subsection \<open>Entering and leaving\<close>

text \<open>
  Claim C4 on the code. The store reports a location inside the radius under the key
  \<^verbatim>\<open>__proto__\<close>, and then a second location inside the radius under the same key. The
  assignment \<^verbatim>\<open>_locations["__proto__"] = {...}\<close> makes no row, so
  \<^verbatim>\<open>_locations.hasOwnProperty("__proto__")\<close> is false both times and \<^verbatim>\<open>key_entered\<close>
  fires twice for the key, with no \<^verbatim>\<open>key_exited\<close> in between (the second notification
  should have fired \<^verbatim>\<open>key_moved\<close>).
\<close>

theorem key_entered_twice_for_key_proto:
  "filter is_key_event
     (trace (run env_ex
               [Child_added ''__proto__'' (Some (1, 0)), Child_changed ''__proto__'' (Some (2, 0))]
               (snd (GeoQuery env_ex crit_ex)))) =
     [Fired ''key_entered'' ''__proto__'' (Some (1, 0)) (Some 1),
      Fired ''key_entered'' ''__proto__'' (Some (2, 0)) (Some 2)] \<and>
   locations (run env_ex
               [Child_added ''__proto__'' (Some (1, 0)), Child_changed ''__proto__'' (Some (2, 0))]
               (snd (GeoQuery env_ex crit_ex))) = [] \<and>
   \<not> entered_once ''__proto__'' False
       (trace (run env_ex
                 [Child_added ''__proto__'' (Some (1, 0)), Child_changed ''__proto__'' (Some (2, 0))]
                 (snd (GeoQuery env_ex crit_ex))))"
proof -
  have e: "decodeGeofireObject env_ex v = v" "validateLocation env_ex l"
    "distance env_ex (1, 0) (0, 0) = 1" "distance env_ex (2, 0) (0, 0) = 2"
    "encodeGeohash env_ex (1, 0) p = ''a''" "encodeGeohash env_ex (2, 0) p = ''a''" for v l p
    by (simp_all add: env_ex_def)
  show ?thesis
    by (simp add: GeoQuery_env_ex childAddedCallback_def childChangedCallback_def
        updateLocation_def own_row_def locations_put_def fireCallbacksForKey_def Let_def e)
qed

end
